theory Spec2Isabelle
  imports Main "HOL-Library.Word"
begin

unbundle bit_operations_syntax

section \<open>JavaScript values shared by the components\<close>

text \<open>
  A JavaScript string is a sequence of 16-bit code units; it is modelled as the list of
  their numeric values. \<open>String.fromCharCode (b)\<close> of a byte \<open>b\<close> of a
  \<open>Uint8Array\<close> is the one-unit string with value \<open>b\<close>.
\<close>

type_synonym jsstring = "nat list"

definition str :: "string \<Rightarrow> jsstring" where
  "str s = map of_char s"

text \<open>The exceptions the modelled code can raise.\<close>

datatype js_error = TypeError | ReferenceError

section \<open>Stream (pdf.js, lines 4-59)\<close>

text \<open>
  \<open>bytes\<close> is the \<open>Uint8Array\<close> over the buffer, \<open>pos\<close> the cursor. Positions and
  the \<open>limit\<close> of \<open>find\<close> are array indices and character counts, hence naturals.
\<close>

record Stream =
  bytes :: "char list"
  pos :: nat

text \<open>\<open>lookChar\<close>: \<open>None\<close> is JavaScript's \<open>undefined\<close>, returned at or past the end.\<close>

definition lookChar :: "Stream \<Rightarrow> nat option" where
  "lookChar s =
     (if pos s \<ge> length (bytes s) then None
      else Some (of_char (bytes s ! pos s)))"

definition getChar :: "Stream \<Rightarrow> nat option \<times> Stream" where
  "getChar s = (lookChar s, s\<lparr>pos := pos s + 1\<rparr>)"

text \<open>
  \<open>str += x\<close> converts \<open>x\<close> to a string first: \<open>undefined\<close> appends the nine
  characters of its name.
\<close>

definition append_ToString :: "jsstring \<Rightarrow> nat option \<Rightarrow> jsstring" where
  "append_ToString s ch = (case ch of None \<Rightarrow> s @ str ''undefined'' | Some c \<Rightarrow> s @ [c])"

text \<open>The loop \<open>for (var n = 0; n < limit; ++n) str += this.getChar();\<close> of \<open>find\<close>.\<close>

fun find_read :: "nat \<Rightarrow> Stream \<Rightarrow> jsstring \<Rightarrow> jsstring \<times> Stream" where
  "find_read 0 s acc = (acc, s)"
| "find_read (Suc n) s acc =
     (case getChar s of (ch, s') \<Rightarrow> find_read n s' (append_ToString acc ch))"

text \<open>
  \<open>String.prototype.indexOf\<close> and \<open>lastIndexOf\<close> as ECMAScript defines them: the
  smallest (greatest) \<open>k\<close> with \<open>k + |needle| \<le> |s|\<close> at which every unit of the
  needle matches, and \<open>-1\<close> when there is none.
\<close>

definition matchesAt :: "jsstring \<Rightarrow> jsstring \<Rightarrow> nat \<Rightarrow> bool" where
  "matchesAt s needle k \<longleftrightarrow>
     k + length needle \<le> length s \<and> take (length needle) (drop k s) = needle"

definition indexOf :: "jsstring \<Rightarrow> jsstring \<Rightarrow> int" where
  "indexOf s needle =
     (case List.find (matchesAt s needle) [0..<Suc (length s)] of
        None \<Rightarrow> - 1 | Some k \<Rightarrow> int k)"

definition lastIndexOf :: "jsstring \<Rightarrow> jsstring \<Rightarrow> int" where
  "lastIndexOf s needle =
     (case List.find (matchesAt s needle) (rev [0..<Suc (length s)]) of
        None \<Rightarrow> - 1 | Some k \<Rightarrow> int k)"

text \<open>
  \<open>Stream.find (needle, limit, backwards)\<close>. When \<open>pos\<close> is past the end the source
  makes \<open>limit\<close> negative and the loop does not run; the truncated subtraction gives
  \<open>0\<close> and the same empty loop.
\<close>

definition Stream_find :: "Stream \<Rightarrow> jsstring \<Rightarrow> nat \<Rightarrow> bool \<Rightarrow> bool \<times> Stream" where
  "Stream_find s needle limit backwards =
     (let len = length (bytes s);
          pos0 = pos s;
          limit' = (if pos0 + limit > len then len - pos0 else limit);
          (text, s1) = find_read limit' s [];
          s2 = s1\<lparr>pos := pos0\<rparr>;
          index = (if backwards then lastIndexOf text needle else indexOf text needle)
      in if index = - 1 then (False, s2)
         else (True, s2\<lparr>pos := nat (int (pos s2) + index)\<rparr>))"

text \<open>
  The window of the search: at most \<open>limit\<close> characters of the stream from the current
  position on.
\<close>

definition window :: "Stream \<Rightarrow> nat \<Rightarrow> jsstring" where
  "window s limit = take limit (drop (pos s) (str (bytes s)))"

subsection \<open>What \<open>find\<close> does to the position\<close>

lemma find_read_window:
  "pos s + n \<le> length (bytes s) \<Longrightarrow>
   find_read n s acc = (acc @ take n (drop (pos s) (str (bytes s))), s\<lparr>pos := pos s + n\<rparr>)"
proof (induction n arbitrary: s acc)
  case 0
  then show ?case by simp
next
  case (Suc n)
  have lt: "pos s < length (bytes s)" using Suc.prems by simp
  have g: "getChar s = (Some (of_char (bytes s ! pos s)), s\<lparr>pos := pos s + 1\<rparr>)"
    using lt by (simp add: getChar_def lookChar_def)
  have d: "drop (pos s) (str (bytes s)) = of_char (bytes s ! pos s) # drop (Suc (pos s)) (str (bytes s))"
    using lt by (simp add: str_def Cons_nth_drop_Suc[symmetric])
  show ?case
    using Suc.IH[of "s\<lparr>pos := pos s + 1\<rparr>" "acc @ [of_char (bytes s ! pos s)]"] Suc.prems
    by (simp add: g d append_ToString_def)
qed

lemma find_upt_least:
  "List.find P [0..<n] = Some k \<Longrightarrow> P k \<and> k < n \<and> (\<forall>j<k. \<not> P j)"
  by (auto simp: find_Some_iff)

lemma find_upt_None: "List.find P [0..<n] = None \<longleftrightarrow> (\<forall>j<n. \<not> P j)"
  by (auto simp: find_None_iff)

lemma find_rev_upt_greatest:
  "List.find P (rev [0..<n]) = Some k \<Longrightarrow> P k \<and> k < n \<and> (\<forall>j<n. k < j \<longrightarrow> \<not> P j)"
  apply (auto simp: find_Some_iff rev_nth)
  by (metis Suc_diff_Suc diff_less_mono2 diff_diff_cancel less_imp_le_nat  not_less_eq zero_less_Suc diff_Suc_less less_Suc_eq_le)

lemma find_rev_upt_None: "List.find P (rev [0..<n]) = None \<longleftrightarrow> (\<forall>j<n. \<not> P j)"
  by (auto simp: find_None_iff)

lemma Stream_find_text:
  "find_read (if pos s + limit > length (bytes s) then length (bytes s) - pos s else limit) s []
     = (window s limit, s\<lparr>pos := pos s + (if pos s + limit > length (bytes s) then length (bytes s) - pos s else limit)\<rparr>)"
proof (cases "pos s \<le> length (bytes s)")
  case True
  then show ?thesis
    by (subst find_read_window) (auto simp: window_def str_def)
next
  case False
  then show ?thesis by (simp add: window_def str_def)
qed

lemma indexOf_first:
  "indexOf t needle = - 1 \<longleftrightarrow> (\<forall>k. \<not> matchesAt t needle k)"
  "indexOf t needle \<noteq> - 1 \<Longrightarrow>
     0 \<le> indexOf t needle \<and> matchesAt t needle (nat (indexOf t needle)) \<and>
     (\<forall>j. matchesAt t needle j \<longrightarrow> nat (indexOf t needle) \<le> j)"
proof -
  have bound: "\<And>k. matchesAt t needle k \<Longrightarrow> k < Suc (length t)"
    by (simp add: matchesAt_def)
  show "indexOf t needle = - 1 \<longleftrightarrow> (\<forall>k. \<not> matchesAt t needle k)"
    using bound find_upt_least[of "matchesAt t needle" "Suc (length t)"]
    by (auto simp: indexOf_def find_upt_None simp del: upt_Suc split: option.splits)
  show "indexOf t needle \<noteq> - 1 \<Longrightarrow>
     0 \<le> indexOf t needle \<and> matchesAt t needle (nat (indexOf t needle)) \<and>
     (\<forall>j. matchesAt t needle j \<longrightarrow> nat (indexOf t needle) \<le> j)"
    using find_upt_least[of "matchesAt t needle" "Suc (length t)"]
    by (auto simp: indexOf_def simp del: upt_Suc split: option.splits) (meson not_le)
qed

lemma lastIndexOf_last:
  "lastIndexOf t needle = - 1 \<longleftrightarrow> (\<forall>k. \<not> matchesAt t needle k)"
  "lastIndexOf t needle \<noteq> - 1 \<Longrightarrow>
     0 \<le> lastIndexOf t needle \<and> matchesAt t needle (nat (lastIndexOf t needle)) \<and>
     (\<forall>j. matchesAt t needle j \<longrightarrow> j \<le> nat (lastIndexOf t needle))"
proof -
  have bound: "\<And>k. matchesAt t needle k \<Longrightarrow> k < Suc (length t)"
    by (simp add: matchesAt_def)
  show "lastIndexOf t needle = - 1 \<longleftrightarrow> (\<forall>k. \<not> matchesAt t needle k)"
    using bound find_rev_upt_greatest[of "matchesAt t needle" "Suc (length t)"]
    by (auto simp: lastIndexOf_def find_rev_upt_None simp del: upt_Suc split: option.splits)
  show "lastIndexOf t needle \<noteq> - 1 \<Longrightarrow>
     0 \<le> lastIndexOf t needle \<and> matchesAt t needle (nat (lastIndexOf t needle)) \<and>
     (\<forall>j. matchesAt t needle j \<longrightarrow> j \<le> nat (lastIndexOf t needle))"
    using bound find_rev_upt_greatest[of "matchesAt t needle" "Suc (length t)"]
    by (auto simp: lastIndexOf_def simp del: upt_Suc split: option.splits) (meson not_le)
qed

lemma matchesAt_window_bound: "matchesAt (window s limit) needle k \<Longrightarrow> k + length needle \<le> limit"
  by (simp add: matchesAt_def window_def)

text \<open>
  C10. \<open>Stream.find\<close> never changes the bytes. When it returns false the position is
  exactly the one before the call and the needle occurs nowhere in the window. When it
  returns true the new position is the old one plus the index of the first occurrence
  of the needle in the window (the last one when \<open>backwards\<close> is set), and the whole
  occurrence lies within \<open>limit\<close> characters of the old position.
\<close>

theorem Stream_find_position:
  "Stream_find s needle limit backwards = (found, s') \<Longrightarrow>
     bytes s' = bytes s \<and>
     (\<not> found \<longrightarrow> pos s' = pos s \<and> (\<forall>k. \<not> matchesAt (window s limit) needle k)) \<and>
     (found \<longrightarrow> (\<exists>k. pos s' = pos s + k \<and> matchesAt (window s limit) needle k \<and>
           (\<forall>j. matchesAt (window s limit) needle j \<longrightarrow> (if backwards then j \<le> k else k \<le> j)) \<and>
           pos s' + length needle \<le> pos s + limit))"
proof -
  assume run: "Stream_find s needle limit backwards = (found, s')"
  define idx where "idx = (if backwards then lastIndexOf (window s limit) needle else indexOf (window s limit) needle)"
  have res: "(found, s') = (if idx = - 1 then (False, s) else (True, s\<lparr>pos := nat (int (pos s) + idx)\<rparr>))"
    using run unfolding Stream_find_def Let_def Stream_find_text idx_def by (simp split: if_splits)
  have frame: "bytes s' = bytes s" using res by (auto split: if_splits)
  have miss: "pos s' = pos s \<and> (\<forall>k. \<not> matchesAt (window s limit) needle k)" if "\<not> found"
    using that res indexOf_first(1)[of "window s limit" needle] lastIndexOf_last(1)[of "window s limit" needle]
    by (auto simp: idx_def split: if_splits)
  have hit: "\<exists>k. pos s' = pos s + k \<and> matchesAt (window s limit) needle k \<and>
           (\<forall>j. matchesAt (window s limit) needle j \<longrightarrow> (if backwards then j \<le> k else k \<le> j)) \<and>
           pos s' + length needle \<le> pos s + limit" if found
  proof -
    from that res have ne: "idx \<noteq> - 1" and s': "s' = s\<lparr>pos := nat (int (pos s) + idx)\<rparr>"
      by (auto split: if_splits)
    have p: "0 \<le> idx \<and> matchesAt (window s limit) needle (nat idx) \<and>
       (\<forall>j. matchesAt (window s limit) needle j \<longrightarrow> (if backwards then j \<le> nat idx else nat idx \<le> j))"
      using ne indexOf_first(2)[of "window s limit" needle] lastIndexOf_last(2)[of "window s limit" needle]
      by (auto simp: idx_def split: if_splits)
    have "pos s' = pos s + nat idx" using s' p by (simp add: nat_add_distrib)
    moreover have "nat idx + length needle \<le> limit" using p matchesAt_window_bound by blast
    ultimately show ?thesis using p by (intro exI[of _ "nat idx"]) auto
  qed
  show ?thesis using frame miss hit by blast
qed

theorem Stream_find_position_witness:
  "Stream_find \<lparr>bytes = ''%xendobj'', pos = 1\<rparr> (str ''endobj'') 1024 False
     = (True, \<lparr>bytes = ''%xendobj'', pos = 2\<rparr>) \<and>
   (\<exists>k. (2::nat) = 1 + k \<and> matchesAt (window \<lparr>bytes = ''%xendobj'', pos = 1\<rparr> 1024) (str ''endobj'') k)"
proof -
  have run: "Stream_find \<lparr>bytes = ''%xendobj'', pos = 1\<rparr> (str ''endobj'') 1024 False
     = (True, \<lparr>bytes = ''%xendobj'', pos = 2\<rparr>)"
    by code_simp
  show ?thesis using Stream_find_position[OF run] run by auto
qed

section \<open>Primitive objects (pdf.js, lines 61-174)\<close>

text \<open>
  The values a parser hands to its client. A JavaScript number is \<open>ONum\<close> when its
  value is integral and \<open>OReal\<close> otherwise (written as a fraction of two integers); a
  \<open>Dict\<close> is the list of the keys and values given to \<open>Dict.set\<close>, in the order of the
  calls (the object keeps each under the property name \<open>"$" + key\<close>, so that none of its
  own properties has the name of a method). \<open>OEOF\<close>, \<open>OError\<close> and \<open>ONone\<close> are the
  three marker objects, \<open>OUndefined\<close> is \<open>undefined\<close>. The type of the characters of
  a text is left open: the objects written out for the interpreter and the table reader
  carry texts of 8-bit characters, the objects read from a stream carry code units.
\<close>

datatype 'c gobj =
    ONum int
  | OReal int int
  | OBool bool
  | ONull
  | OUndefined
  | OString "'c list"
  | OName "'c list"
  | OCmd "'c list"
  | OArray "'c gobj list"
  | ODict "('c list \<times> 'c gobj) list"
  | ORef int int
  | OEOF
  | OError
  | ONone

type_synonym obj = "char gobj"

text \<open>\<open>v | 0\<close>: the value wrapped to a signed 32-bit integer.\<close>

definition ToInt32 :: "int \<Rightarrow> int" where
  "ToInt32 v = (v + 2 ^ 31) mod 2 ^ 32 - 2 ^ 31"

fun IsBool :: "'c gobj \<Rightarrow> bool" where
  "IsBool (OBool b) = True"
| "IsBool v = False"

fun IsInt :: "'c gobj \<Rightarrow> bool" where
  "IsInt (ONum v) = (ToInt32 v = v)"
| "IsInt v = False"

fun IsNum :: "'c gobj \<Rightarrow> bool" where
  "IsNum (ONum v) = True"
| "IsNum (OReal n d) = True"
| "IsNum v = False"

fun IsString :: "'c gobj \<Rightarrow> bool" where
  "IsString (OString t) = True"
| "IsString v = False"

fun IsName :: "'c gobj \<Rightarrow> bool" where
  "IsName (OName n) = True"
| "IsName v = False"

text \<open>
  \<open>IsCmd (v, cmd)\<close>: the second argument is optional, and an empty string is as good
  as none (\<open>!cmd\<close>).
\<close>

fun IsCmd :: "'c gobj \<Rightarrow> 'c list option \<Rightarrow> bool" where
  "IsCmd (OCmd c) None = True"
| "IsCmd (OCmd c) (Some cmd) = (cmd = [] \<or> c = cmd)"
| "IsCmd v cmd = False"

fun IsDict :: "'c gobj \<Rightarrow> bool" where
  "IsDict (ODict d) = True"
| "IsDict v = False"

fun IsArray :: "'c gobj \<Rightarrow> bool" where
  "IsArray (OArray a) = True"
| "IsArray v = False"

text \<open>
  \<open>IsEOF (v)\<close> is \<open>v == EOF\<close>, the loose comparison with the marker object: it holds
  of the marker itself and of the string that the marker converts to.
\<close>

fun IsEOF :: "obj \<Rightarrow> bool" where
  "IsEOF OEOF = True"
| "IsEOF (OString t) = (t = ''[object Object]'')"
| "IsEOF v = False"

text \<open>
  A parser, for the clients below, is the sequence of objects its \<open>getObj\<close> returns
  (as \<open>MockParser\<close>, lines 1119-1131, which shifts them off an array); the lexer returns
  \<open>EOF\<close> once the input is used up.
\<close>

definition getObj :: "obj list \<Rightarrow> obj \<times> obj list" where
  "getObj objs = (case objs of [] \<Rightarrow> (OEOF, []) | v # rest \<Rightarrow> (v, rest))"

section \<open>Interpreter (pdf.js, lines 803-847)\<close>

text \<open>
  The graphics sink is known to the interpreter through \<open>gfx[cmd]\<close> only: a property
  lookup by name. \<open>PFunction n\<close> is a function declared with \<open>n\<close> parameters,
  \<open>PObject len\<close> any other truthy value with its \<open>length\<close> property if it has one,
  \<open>PFalsy\<close> a missing or falsy property.
\<close>

datatype sinkprop = PFalsy | PFunction nat | PObject "nat option"

text \<open>What the sink is asked to do, in order.\<close>

datatype call =
    BeginDrawing int int int int
  | SinkCall string "obj list"
  | EndDrawing

text \<open>
  \<open>Interpreter.error\<close> throws; \<open>InvalidArgs\<close> and \<open>UnknownCommand\<close> name the two
  places that call it. \<open>ApplyFailed\<close> is the \<open>TypeError\<close> of \<open>fn.apply\<close> on a value
  that is not a function.
\<close>

datatype interp_error = InvalidArgs string | UnknownCommand string | ApplyFailed string

record istate =
  args :: "obj list"
  calls :: "call list"

text \<open>\<open>cmd[0] != "$"\<close>; the empty string has no first character.\<close>

definition notDollar :: "string \<Rightarrow> bool" where
  "notDollar cmd = (case cmd of [] \<Rightarrow> True | c # _ \<Rightarrow> c \<noteq> CHR ''$'')"

text \<open>The body of the loop for a command token (lines 826-834).\<close>

definition dispatch :: "(string \<Rightarrow> sinkprop) \<Rightarrow> istate \<Rightarrow> string \<Rightarrow> interp_error + istate" where
  "dispatch gfx st cmd =
     (case gfx cmd of
        PFalsy \<Rightarrow> Inl (UnknownCommand cmd)
      | PFunction arity \<Rightarrow>
          if notDollar cmd then
            (if arity \<noteq> length (args st) then Inl (InvalidArgs cmd)
             else Inr (st\<lparr>calls := calls st @ [SinkCall cmd (args st)], args := []\<rparr>))
          else Inl (UnknownCommand cmd)
      | PObject len \<Rightarrow>
          if notDollar cmd then
            (if len \<noteq> Some (length (args st)) then Inl (InvalidArgs cmd)
             else Inl (ApplyFailed cmd))
          else Inl (UnknownCommand cmd))"

text \<open>The body of the loop (lines 825-837).\<close>

definition step :: "(string \<Rightarrow> sinkprop) \<Rightarrow> istate \<Rightarrow> obj \<Rightarrow> interp_error + istate" where
  "step gfx st v =
     (case v of
        OCmd cmd \<Rightarrow> dispatch gfx st cmd
      | _ \<Rightarrow> Inr (st\<lparr>args := args st @ [v]\<rparr>))"

text \<open>
  \<open>while (!IsEOF (obj = parser.getObj ())) ...\<close>: the state when the loop is left, and
  the error if it was left by a throw.
\<close>

fun interpretLoop :: "(string \<Rightarrow> sinkprop) \<Rightarrow> istate \<Rightarrow> obj list \<Rightarrow> istate \<times> interp_error option" where
  "interpretLoop gfx st [] = (st, None)"
| "interpretLoop gfx st (v # rest) =
     (if IsEOF v then (st, None)
      else case step gfx st v of
             Inl e \<Rightarrow> (st, Some e)
           | Inr st' \<Rightarrow> interpretLoop gfx st' rest)"

text \<open>
  \<open>interpretHelper (mediaBox, parser)\<close>; the media box is its four numbers.
\<close>

definition beginDrawing :: "int \<times> int \<times> int \<times> int \<Rightarrow> istate" where
  "beginDrawing mediaBox =
     (case mediaBox of (x0, y0, x1, y1) \<Rightarrow>
        \<lparr>args = [], calls = [BeginDrawing x0 y0 (x1 - x0) (y1 - y0)]\<rparr>)"

definition interpretHelper ::
  "(string \<Rightarrow> sinkprop) \<Rightarrow> int \<times> int \<times> int \<times> int \<Rightarrow> obj list \<Rightarrow> istate \<times> interp_error option" where
  "interpretHelper gfx mediaBox parser =
     (case interpretLoop gfx (beginDrawing mediaBox) parser of
        (st, None) \<Rightarrow> (st\<lparr>calls := calls st @ [EndDrawing]\<rparr>, None)
      | (st, Some e) \<Rightarrow> (st, Some e))"

text \<open>
  The properties every object inherits from \<open>Object.prototype\<close> (ECMAScript 5,
  section 15.2.4): all are functions, here with the number of their parameters. A
  host may add others.
\<close>

definition ObjectPrototype :: "string \<Rightarrow> sinkprop" where
  "ObjectPrototype name =
     (case map_of
        [(''constructor'', PFunction 1), (''toString'', PFunction 0),
         (''toLocaleString'', PFunction 0), (''valueOf'', PFunction 0),
         (''hasOwnProperty'', PFunction 1), (''isPrototypeOf'', PFunction 1),
         (''propertyIsEnumerable'', PFunction 1)] name of
        None \<Rightarrow> PFalsy
      | Some p \<Rightarrow> p)"

text \<open>
  The properties of a \<open>CanvasGraphics\<close> (lines 992-1114): the three fields its
  constructor sets (the state stack being the empty array), the methods of its
  prototype with the number of their parameters, and behind them what the prototype,
  an object literal, inherits from \<open>Object.prototype\<close>.
\<close>

definition CanvasGraphics :: "string \<Rightarrow> sinkprop" where
  "CanvasGraphics name =
     (case map_of
        [(''ctx'', PObject None), (''current'', PObject None), (''stateStack'', PObject (Some 0)),
         (''beginDrawing'', PFunction 1), (''endDrawing'', PFunction 0),
         (''w'', PFunction 1), (''d'', PFunction 2), (''q'', PFunction 0), (''Q'', PFunction 0),
         (''cm'', PFunction 6),
         (''m'', PFunction 2), (''l'', PFunction 2), (''c'', PFunction 6), (''h'', PFunction 0),
         (''re'', PFunction 4), (''S'', PFunction 0), (''f'', PFunction 0), (''B'', PFunction 0),
         (''b'', PFunction 0),
         (''BT'', PFunction 0), (''ET'', PFunction 0), (''Tf'', PFunction 2), (''Td'', PFunction 2),
         (''Tj'', PFunction 1),
         (''g'', PFunction 1), (''RG'', PFunction 3), (''rg'', PFunction 3),
         (''$consumePath'', PFunction 0), (''$makeCssRgb'', PFunction 3)] name of
        None \<Rightarrow> ObjectPrototype name
      | Some p \<Rightarrow> p)"

subsection \<open>What the interpreter asks of the sink\<close>

lemma interpretLoop_append:
  "\<forall>v\<in>set pre. \<not> IsEOF v \<Longrightarrow> interpretLoop gfx st pre = (st1, None) \<Longrightarrow>
   interpretLoop gfx st (pre @ suffix) = interpretLoop gfx st1 suffix"
proof (induction pre arbitrary: st)
  case Nil
  then show ?case by simp
next
  case (Cons v pre)
  then show ?case by (cases "step gfx st v") auto
qed

lemma dispatch_clears: "dispatch gfx st c = Inr st' \<Longrightarrow> args st' = []"
  by (auto simp: dispatch_def split: sinkprop.splits if_splits)

lemma interpretLoop_no_EndDrawing:
  "interpretLoop gfx st objs = (st', r) \<Longrightarrow> EndDrawing \<notin> set (calls st) \<Longrightarrow> EndDrawing \<notin> set (calls st')"
proof (induction objs arbitrary: st)
  case Nil
  then show ?case by simp
next
  case (Cons v objs)
  show ?case
  proof (cases "IsEOF v")
    case True
    with Cons.prems show ?thesis by simp
  next
    case False
    show ?thesis
    proof (cases "step gfx st v")
      case (Inl e)
      with False Cons.prems show ?thesis by simp
    next
      case (Inr st1)
      then have "EndDrawing \<notin> set (calls st1)"
        using Cons.prems(2)
        by (auto simp: step_def dispatch_def split: gobj.splits sinkprop.splits if_splits)
      with Inr False Cons.prems(1) Cons.IH show ?thesis by simp
    qed
  qed
qed

text \<open>
  C1. On any sink whose \<open>RG\<close>, \<open>m\<close>, \<open>l\<close> and \<open>S\<close> are functions of three, two, two
  and no parameters, the stream \<open>1 0 0 RG 100 100 m 200 200 l S\<close> followed by \<open>EOF\<close>
  makes exactly the calls \<open>RG (1, 0, 0)\<close>, \<open>m (100, 100)\<close>, \<open>l (200, 200)\<close>, \<open>S ()\<close> in
  that order between \<open>beginDrawing\<close> and \<open>endDrawing\<close>, and ends with an empty operand
  stack. For every content stream, whenever a command has been dispatched the operand
  stack is empty, and the rest of the stream is interpreted from that empty stack.
\<close>

theorem interpretHelper_scenario_B:
  "(gfx ''RG'' = PFunction 3 \<and> gfx ''m'' = PFunction 2 \<and> gfx ''l'' = PFunction 2 \<and>
    gfx ''S'' = PFunction 0 \<longrightarrow>
      interpretHelper gfx mediaBox
        [ONum 1, ONum 0, ONum 0, OCmd ''RG'', ONum 100, ONum 100, OCmd ''m'',
         ONum 200, ONum 200, OCmd ''l'', OCmd ''S'', OEOF]
      = (\<lparr>args = [],
          calls = calls (beginDrawing mediaBox) @
            [SinkCall ''RG'' [ONum 1, ONum 0, ONum 0], SinkCall ''m'' [ONum 100, ONum 100],
             SinkCall ''l'' [ONum 200, ONum 200], SinkCall ''S'' [], EndDrawing]\<rparr>, None)) \<and>
   ((\<forall>v\<in>set pre. \<not> IsEOF v) \<and> interpretLoop gfx st pre = (st1, None) \<and>
    step gfx st1 (OCmd c) = Inr st2 \<longrightarrow>
      args st2 = [] \<and>
      interpretLoop gfx st (pre @ OCmd c # rest) = interpretLoop gfx st2 rest)"
proof (intro conjI impI)
  assume sink: "gfx ''RG'' = PFunction 3 \<and> gfx ''m'' = PFunction 2 \<and> gfx ''l'' = PFunction 2 \<and>
    gfx ''S'' = PFunction 0"
  obtain x0 y0 x1 y1 where mb: "mediaBox = (x0, y0, x1, y1)" by (cases mediaBox) auto
  show "interpretHelper gfx mediaBox
        [ONum 1, ONum 0, ONum 0, OCmd ''RG'', ONum 100, ONum 100, OCmd ''m'',
         ONum 200, ONum 200, OCmd ''l'', OCmd ''S'', OEOF]
      = (\<lparr>args = [],
          calls = calls (beginDrawing mediaBox) @
            [SinkCall ''RG'' [ONum 1, ONum 0, ONum 0], SinkCall ''m'' [ONum 100, ONum 100],
             SinkCall ''l'' [ONum 200, ONum 200], SinkCall ''S'' [], EndDrawing]\<rparr>, None)"
    using sink by (simp add: mb interpretHelper_def beginDrawing_def step_def dispatch_def notDollar_def)
next
  assume h: "(\<forall>v\<in>set pre. \<not> IsEOF v) \<and> interpretLoop gfx st pre = (st1, None) \<and>
    step gfx st1 (OCmd c) = Inr st2"
  then show "args st2 = []" by (auto simp: step_def dest: dispatch_clears)
  from h have "interpretLoop gfx st (pre @ OCmd c # rest) = interpretLoop gfx st1 (OCmd c # rest)"
    by (intro interpretLoop_append) auto
  with h show "interpretLoop gfx st (pre @ OCmd c # rest) = interpretLoop gfx st2 rest" by simp
qed

text \<open>
  The scenario on a \<open>CanvasGraphics\<close> with the media box of the tests, and the dispatch of
  \<open>RG\<close> in front of further tokens.
\<close>

theorem interpretHelper_scenario_B_witness:
  "interpretHelper CanvasGraphics (0, 0, 612, 792)
        [ONum 1, ONum 0, ONum 0, OCmd ''RG'', ONum 100, ONum 100, OCmd ''m'',
         ONum 200, ONum 200, OCmd ''l'', OCmd ''S'', OEOF]
      = (\<lparr>args = [],
          calls = [BeginDrawing 0 0 612 792,
             SinkCall ''RG'' [ONum 1, ONum 0, ONum 0], SinkCall ''m'' [ONum 100, ONum 100],
             SinkCall ''l'' [ONum 200, ONum 200], SinkCall ''S'' [], EndDrawing]\<rparr>, None) \<and>
   interpretLoop CanvasGraphics (beginDrawing (0, 0, 612, 792))
        ([ONum 1, ONum 0, ONum 0] @ OCmd ''RG'' # [ONum 7, OCmd ''w''])
      = interpretLoop CanvasGraphics
          \<lparr>args = [], calls = [BeginDrawing 0 0 612 792, SinkCall ''RG'' [ONum 1, ONum 0, ONum 0]]\<rparr>
          [ONum 7, OCmd ''w'']"
proof -
  have sink: "CanvasGraphics ''RG'' = PFunction 3 \<and> CanvasGraphics ''m'' = PFunction 2 \<and>
      CanvasGraphics ''l'' = PFunction 2 \<and> CanvasGraphics ''S'' = PFunction 0"
    by (simp add: CanvasGraphics_def ObjectPrototype_def)
  have pre: "(\<forall>v\<in>set [ONum 1, ONum 0, ONum 0]. \<not> IsEOF v) \<and>
      interpretLoop CanvasGraphics (beginDrawing (0, 0, 612, 792)) [ONum 1, ONum 0, ONum 0]
        = (\<lparr>args = [ONum 1, ONum 0, ONum 0], calls = [BeginDrawing 0 0 612 792]\<rparr>, None) \<and>
      step CanvasGraphics \<lparr>args = [ONum 1, ONum 0, ONum 0], calls = [BeginDrawing 0 0 612 792]\<rparr>
          (OCmd ''RG'')
        = Inr \<lparr>args = [], calls = [BeginDrawing 0 0 612 792, SinkCall ''RG'' [ONum 1, ONum 0, ONum 0]]\<rparr>"
    by (simp add: beginDrawing_def step_def dispatch_def notDollar_def CanvasGraphics_def ObjectPrototype_def)
  show ?thesis
    using interpretHelper_scenario_B
      [of CanvasGraphics "(0, 0, 612, 792)" "[ONum 1, ONum 0, ONum 0]"
          "beginDrawing (0, 0, 612, 792)"
          "\<lparr>args = [ONum 1, ONum 0, ONum 0], calls = [BeginDrawing 0 0 612 792]\<rparr>" "''RG''"
          "\<lparr>args = [], calls = [BeginDrawing 0 0 612 792, SinkCall ''RG'' [ONum 1, ONum 0, ONum 0]]\<rparr>"
          "[ONum 7, OCmd ''w'']"]
      sink pre
    by (simp add: beginDrawing_def)
qed

text \<open>
  A token with the name of an inherited property is a command like any other:
  \<open>toString\<close> without operands is applied to the sink.
\<close>

lemma interpretHelper_inherited_property:
  "interpretHelper CanvasGraphics (0, 0, 612, 792) [OCmd ''toString'', OEOF]
     = (\<lparr>args = [], calls = [BeginDrawing 0 0 612 792, SinkCall ''toString'' [], EndDrawing]\<rparr>,
        None)"
  by (simp add: interpretHelper_def beginDrawing_def step_def dispatch_def notDollar_def
      CanvasGraphics_def ObjectPrototype_def)

text \<open>
  C2 as stated fails: an unknown command, and a known command with the wrong number of
  operands, end the interpretation. The \<open>S\<close> after them is never dispatched and
  \<open>endDrawing\<close> is never called.
\<close>

theorem interpretHelper_continues_counterexample:
  "interpretHelper CanvasGraphics (0, 0, 612, 792) [OCmd ''zz'', OCmd ''S'', OEOF]
     = (\<lparr>args = [], calls = [BeginDrawing 0 0 612 792]\<rparr>, Some (UnknownCommand ''zz'')) \<and>
   interpretHelper CanvasGraphics (0, 0, 612, 792) [ONum 1, OCmd ''S'', OCmd ''S'', OEOF]
     = (\<lparr>args = [ONum 1], calls = [BeginDrawing 0 0 612 792]\<rparr>, Some (InvalidArgs ''S''))"
  by (simp add: interpretHelper_def beginDrawing_def step_def dispatch_def notDollar_def
      CanvasGraphics_def ObjectPrototype_def)

text \<open>
  C2, amended. When the tokens before a command are interpreted without error and the
  command has no property in the sink, or names a function whose number of parameters
  differs from the number of operands, \<open>interpretHelper\<close> throws at that token:
  whatever follows is ignored, the sink keeps the calls made so far, and
  \<open>endDrawing\<close> is not among them.
\<close>

theorem interpretHelper_throws:
  assumes "\<forall>v\<in>set pre. \<not> IsEOF v"
    and "interpretLoop gfx (beginDrawing mediaBox) pre = (st1, None)"
    and "gfx c = PFalsy \<or> (\<exists>a. gfx c = PFunction a \<and> a \<noteq> length (args st1))"
  shows "interpretHelper gfx mediaBox (pre @ OCmd c # rest)
           = (st1, Some (if gfx c = PFalsy \<or> \<not> notDollar c then UnknownCommand c
                         else InvalidArgs c)) \<and>
         EndDrawing \<notin> set (calls st1)"
proof
  have "interpretLoop gfx (beginDrawing mediaBox) (pre @ OCmd c # rest)
          = interpretLoop gfx st1 (OCmd c # rest)"
    using assms(1,2) by (rule interpretLoop_append)
  moreover have "step gfx st1 (OCmd c)
          = Inl (if gfx c = PFalsy \<or> \<not> notDollar c then UnknownCommand c else InvalidArgs c)"
    using assms(3) by (auto simp: step_def dispatch_def)
  ultimately show "interpretHelper gfx mediaBox (pre @ OCmd c # rest)
           = (st1, Some (if gfx c = PFalsy \<or> \<not> notDollar c then UnknownCommand c
                         else InvalidArgs c))"
    by (simp add: interpretHelper_def)
  have "EndDrawing \<notin> set (calls (beginDrawing mediaBox))"
    by (cases mediaBox) (simp add: beginDrawing_def)
  with assms(2) show "EndDrawing \<notin> set (calls st1)"
    by (rule interpretLoop_no_EndDrawing)
qed

text \<open>
  An unknown command after a \<open>moveTo\<close>, in front of a \<open>stroke\<close>.
\<close>

theorem interpretHelper_throws_witness:
  "interpretHelper CanvasGraphics (0, 0, 612, 792)
      ([ONum 100, ONum 100, OCmd ''m''] @ OCmd ''zz'' # [OCmd ''S'', OEOF])
     = (\<lparr>args = [], calls = [BeginDrawing 0 0 612 792, SinkCall ''m'' [ONum 100, ONum 100]]\<rparr>,
        Some (UnknownCommand ''zz'')) \<and>
   EndDrawing \<notin> set [BeginDrawing 0 0 612 792, SinkCall ''m'' [ONum 100, ONum 100]]"
proof -
  have noeof: "\<forall>v\<in>set [ONum 100, ONum 100, OCmd ''m'']. \<not> IsEOF v" by simp
  have pre: "interpretLoop CanvasGraphics (beginDrawing (0, 0, 612, 792)) [ONum 100, ONum 100, OCmd ''m'']
      = (\<lparr>args = [], calls = [BeginDrawing 0 0 612 792, SinkCall ''m'' [ONum 100, ONum 100]]\<rparr>, None)"
    by (simp add: beginDrawing_def step_def dispatch_def notDollar_def CanvasGraphics_def ObjectPrototype_def)
  have unknown: "CanvasGraphics ''zz'' = PFalsy \<or>
      (\<exists>a. CanvasGraphics ''zz'' = PFunction a \<and>
         a \<noteq> length (args \<lparr>args = [], calls = [BeginDrawing 0 0 612 792, SinkCall ''m'' [ONum 100, ONum 100]]\<rparr>))"
    by (simp add: CanvasGraphics_def ObjectPrototype_def)
  have zz: "CanvasGraphics ''zz'' = PFalsy" by (simp add: CanvasGraphics_def ObjectPrototype_def)
  show ?thesis
    using interpretHelper_throws[OF noeof pre unknown, of "[OCmd ''S'', OEOF]"]
    by (simp add: zz)
qed

section \<open>XRef (pdf.js, lines 641-718)\<close>

text \<open>
  An entry of the table is created empty and given \<open>offset\<close>, \<open>gen\<close> and one of the
  flags \<open>uncompressed\<close> and \<open>free\<close>. \<open>entries\<close> is a JavaScript array used sparsely: a
  map from indices to entries, \<open>None\<close> where nothing was stored. \<open>ok\<close> is unset (falsy)
  until a table has been read to its end.
\<close>

record xref_entry =
  offset :: int
  gen :: int
  uncompressed :: bool
  free :: bool

record XRef =
  entries :: "int \<rightharpoonup> xref_entry"
  ok :: bool

fun numOf :: "'c gobj \<Rightarrow> int" where
  "numOf (ONum v) = v"
| "numOf v = 0"

text \<open>
  The head of a subsection (lines 650-660): \<open>Inl True\<close> when the token is \<open>trailer\<close>
  (\<open>break\<close>), \<open>Inl False\<close> for each \<open>return false\<close>, otherwise \<open>first\<close>, \<open>n\<close> and the
  parser behind them.
\<close>

definition readSubsectionHead :: "obj list \<Rightarrow> bool + (int \<times> int \<times> obj list)" where
  "readSubsectionHead parser =
     (case getObj parser of (obj1, p1) \<Rightarrow>
        if IsCmd obj1 (Some ''trailer'') then Inl True
        else if \<not> IsInt obj1 then Inl False
        else (case getObj p1 of (obj2, p2) \<Rightarrow>
          if \<not> IsInt obj2 then Inl False
          else if numOf obj1 < 0 \<or> numOf obj2 < 0 \<or>
                  numOf obj1 + numOf obj2 \<noteq> ToInt32 (numOf obj1 + numOf obj2)
            then Inl False
          else Inr (numOf obj1, numOf obj2, p2)))"

text \<open>
  The body of the \<open>for\<close> loop (lines 662-685): \<open>None\<close> for each \<open>return false\<close>, otherwise
  the table, \<open>i\<close> and \<open>first\<close> as the body leaves them, and the parser behind the entry.
\<close>

definition readEntry :: "XRef \<Rightarrow> int \<Rightarrow> int \<Rightarrow> obj list \<Rightarrow> (XRef \<times> int \<times> int \<times> obj list) option" where
  "readEntry x i first parser =
     (case getObj parser of (obj1, p1) \<Rightarrow>
        if \<not> IsInt obj1 then None
        else (case getObj p1 of (obj2, p2) \<Rightarrow>
          if \<not> IsInt obj2 then None
          else (case getObj p2 of (obj3, p3) \<Rightarrow>
            if \<not> IsCmd obj3 (Some ''n'') \<and> \<not> IsCmd obj3 (Some ''f'') then None
            else
              let entry = \<lparr>offset = numOf obj1, gen = numOf obj2,
                           uncompressed = IsCmd obj3 (Some ''n''),
                           free = (\<not> IsCmd obj3 (Some ''n''))\<rparr>
              in if entries x i = None then
                   (if i = 1 \<and> first = 1 \<and> offset entry = 0 \<and> gen entry = 65535 \<and> free entry
                    then Some (x\<lparr>entries := (entries x)(0 \<mapsto> entry)\<rparr>, 0, 0, p3)
                    else Some (x\<lparr>entries := (entries x)(i \<mapsto> entry)\<rparr>, i, first, p3))
                 else Some (x, i, first, p3))))"

lemma getObj_length:
  "getObj p = (v, p') \<Longrightarrow> length p' \<le> length p \<and> (IsInt v \<longrightarrow> length p' < length p)"
  by (auto simp: getObj_def split: list.splits)

lemma readSubsectionHead_shorter:
  "readSubsectionHead p = Inr (first, n, p') \<Longrightarrow> length p' < length p"
  by (auto simp: readSubsectionHead_def split: prod.splits if_splits dest!: getObj_length)

lemma readEntry_shorter:
  "readEntry x i first p = Some (x', i', first', p') \<Longrightarrow> length p' < length p"
  by (auto simp: readEntry_def Let_def split: prod.splits if_splits dest!: getObj_length)

text \<open>
  \<open>readXRefTable (parser)\<close>. The outer \<open>while (true)\<close> is \<open>readXRefTable\<close>, the inner
  \<open>for (var i = first; i < first + n; ++i)\<close> is \<open>readEntries\<close> with the loop variables
  \<open>i\<close> and \<open>first\<close> (both assigned in the body) and \<open>n\<close>; leaving the inner loop goes
  round the outer one. Each \<open>return false\<close> leaves the entries stored so far in place.
\<close>

function readXRefTable :: "XRef \<Rightarrow> obj list \<Rightarrow> bool \<times> XRef"
  and readEntries :: "XRef \<Rightarrow> int \<Rightarrow> int \<Rightarrow> int \<Rightarrow> obj list \<Rightarrow> bool \<times> XRef"
where
  "readXRefTable x parser =
     (case readSubsectionHead parser of
        Inl True \<Rightarrow> (True, x\<lparr>ok := True\<rparr>)
      | Inl False \<Rightarrow> (False, x)
      | Inr (first, n, p) \<Rightarrow> readEntries x first first n p)"
| "readEntries x i first n parser =
     (if \<not> i < first + n then readXRefTable x parser
      else (case readEntry x i first parser of
              None \<Rightarrow> (False, x)
            | Some (x', i', first', p) \<Rightarrow> readEntries x' (i' + 1) first' n p))"
  by pat_completeness auto
termination
  by (relation "measure (\<lambda>v. case v of Inl (x, p) \<Rightarrow> 2 * length p
                                  | Inr (x, i, first, n, p) \<Rightarrow> 2 * length p + 1)")
     (auto dest!: readSubsectionHead_shorter readEntry_shorter)

declare readXRefTable.simps [simp del] readEntries.simps [simp del]

text \<open>
  The reading of the claims about the table, for comparison with the code: the tokens of
  an entry as they stand in a table; an entry whose tokens the reader accepts; the free
  head \<open>0000000000 65535 f\<close>; and storing a run of entries at consecutive indices, each
  only where nothing is stored yet.
\<close>

definition entryObjs :: "xref_entry \<Rightarrow> obj list" where
  "entryObjs e = [ONum (offset e), ONum (gen e), OCmd (if free e then ''f'' else ''n'')]"

definition wellFormedEntry :: "xref_entry \<Rightarrow> bool" where
  "wellFormedEntry e \<longleftrightarrow>
     IsInt (ONum (offset e) :: obj) \<and> IsInt (ONum (gen e) :: obj) \<and>
     (uncompressed e \<longleftrightarrow> \<not> free e)"

definition legacyFreeHead :: "xref_entry \<Rightarrow> bool" where
  "legacyFreeHead e \<longleftrightarrow> offset e = 0 \<and> gen e = 65535 \<and> free e"

fun storeFirstWins :: "(int \<rightharpoonup> xref_entry) \<Rightarrow> int \<Rightarrow> xref_entry list \<Rightarrow> (int \<rightharpoonup> xref_entry)" where
  "storeFirstWins m i [] = m"
| "storeFirstWins m i (e # es) = storeFirstWins (if m i = None then m(i \<mapsto> e) else m) (i + 1) es"

subsection \<open>Which entry of the table is kept\<close>

lemma ToInt32_id: "- (2 ^ 31) \<le> v \<Longrightarrow> v < 2 ^ 31 \<Longrightarrow> ToInt32 v = v"
  by (simp add: ToInt32_def)

text \<open>
  C3. The claim is that a slot once filled is never written again. The reader keeps
  to that except in the renumbering of lines 680-683: the guard looks at slot \<open>1\<close>, the
  store then goes to slot \<open>0\<close>. The table \<open>0 1\<close>, \<open>0000000100 00000 n\<close> leaves that
  entry in slot \<open>0\<close>; followed by the subsection \<open>1 1\<close>, \<open>0000000000 65535 f\<close>, the
  entry read first for object \<open>0\<close> is replaced by the later one.
\<close>

theorem readXRefTable_overwrites_object_0:
  "readXRefTable \<lparr>entries = Map.empty, ok = False\<rparr>
     [ONum 0, ONum 1, ONum 100, ONum 0, OCmd ''n'', OCmd ''trailer'']
   = (True, \<lparr>entries = [0 \<mapsto> \<lparr>offset = 100, gen = 0, uncompressed = True, free = False\<rparr>],
             ok = True\<rparr>) \<and>
   readXRefTable \<lparr>entries = Map.empty, ok = False\<rparr>
     [ONum 0, ONum 1, ONum 100, ONum 0, OCmd ''n'',
      ONum 1, ONum 1, ONum 0, ONum 65535, OCmd ''f'', OCmd ''trailer'']
   = (True, \<lparr>entries = [0 \<mapsto> \<lparr>offset = 0, gen = 65535, uncompressed = False, free = True\<rparr>],
             ok = True\<rparr>)"
  by (simp add: readXRefTable.simps readEntries.simps readSubsectionHead_def readEntry_def getObj_def ToInt32_def)

lemma readEntry_keeps_nonzero:
  "readEntry x i first p = Some (x', i', first', p') \<Longrightarrow> entries x k = Some e \<Longrightarrow> k \<noteq> 0 \<Longrightarrow>
   entries x' k = Some e"
  by (auto simp: readEntry_def Let_def split: prod.splits if_splits)

text \<open>
  For every object number but \<open>0\<close> the first entry stored is the one kept, whatever
  the tokens are and whether the table is read to its end or not.
\<close>

lemma readXRefTable_keeps_nonzero:
  "readXRefTable x p = (r, x') \<Longrightarrow> entries x k = Some e \<Longrightarrow> k \<noteq> 0 \<Longrightarrow> entries x' k = Some e"
  "readEntries x i first n p = (r, x') \<Longrightarrow> entries x k = Some e \<Longrightarrow> k \<noteq> 0 \<Longrightarrow> entries x' k = Some e"
proof (induction x p and x i first n p rule: readXRefTable_readEntries.induct)
  case (1 x parser)
  from "1.prems"(1) show ?case
    apply (subst (asm) readXRefTable.simps)
    using "1.IH" "1.prems"(2,3)
    by (auto split: sum.splits bool.splits prod.splits)
next
  case (2 x i first n parser)
  show ?case
  proof (cases "i < first + n")
    case False
    with "2.prems" "2.IH"(1) show ?thesis
      by (subst (asm) readEntries.simps) simp
  next
    case True
    show ?thesis
    proof (cases "readEntry x i first parser")
      case None
      with True "2.prems" show ?thesis
        by (subst (asm) readEntries.simps) simp
    next
      case (Some t)
      obtain x1 i1 first1 p1 where t: "t = (x1, i1, first1, p1)" by (cases t) auto
      have run: "readEntries x1 (i1 + 1) first1 n p1 = (r, x')"
        using "2.prems"(1) True Some t by (subst (asm) readEntries.simps) simp
      have "entries x1 k = Some e"
        using Some t "2.prems"(2,3) by (auto dest: readEntry_keeps_nonzero)
      with "2.IH"(2)[OF _ Some[unfolded t] refl refl refl run] True "2.prems"(3)
      show ?thesis by simp
    qed
  qed
qed

lemma readSubsectionHead_ints:
  "0 \<le> first \<Longrightarrow> 0 \<le> n \<Longrightarrow> first + n < 2 ^ 31 \<Longrightarrow>
   readSubsectionHead (ONum first # ONum n # p) = Inr (first, n, p)"
  by (simp add: readSubsectionHead_def getObj_def ToInt32_id)

lemma readEntry_entryObjs:
  assumes "wellFormedEntry e"
  shows "readEntry x i first (entryObjs e @ p) =
     Some (if entries x i = None then
             (if i = 1 \<and> first = 1 \<and> legacyFreeHead e
              then (x\<lparr>entries := (entries x)(0 \<mapsto> e)\<rparr>, 0, 0, p)
              else (x\<lparr>entries := (entries x)(i \<mapsto> e)\<rparr>, i, first, p))
           else (x, i, first, p))"
proof -
  have e: "\<lparr>offset = offset e, gen = gen e, uncompressed = u, free = f\<rparr> = e"
    if "uncompressed e = u" "free e = f" for u f
    using that by (cases e) simp
  have e0: "\<lparr>offset = 0, gen = 65535, uncompressed = False, free = True\<rparr> = e"
    if "offset e = 0" "gen e = 65535" "\<not> uncompressed e" "free e"
    using that by (cases e) simp
  show ?thesis
    using assms
    by (cases "free e")
       (auto simp: readEntry_def entryObjs_def getObj_def wellFormedEntry_def legacyFreeHead_def
          Let_def e e0 simp del: IsInt.simps)
qed

lemma readEntries_plain:
  "\<forall>e\<in>set es. wellFormedEntry e \<Longrightarrow> int (length es) = first + n - i \<Longrightarrow> first \<le> i \<Longrightarrow>
   i \<noteq> 1 \<or> first \<noteq> 1 \<Longrightarrow>
   readEntries x i first n (concat (map entryObjs es) @ rest)
     = readXRefTable (x\<lparr>entries := storeFirstWins (entries x) i es\<rparr>) rest"
proof (induction es arbitrary: x i)
  case Nil
  then show ?case by (subst readEntries.simps) simp
next
  case (Cons e es)
  have lt: "i < first + n" using Cons.prems(2) by simp
  have wf: "wellFormedEntry e" using Cons.prems(1) by simp
  define x1 where "x1 = (if entries x i = None then x\<lparr>entries := (entries x)(i \<mapsto> e)\<rparr> else x)"
  have st: "readEntry x i first (entryObjs e @ concat (map entryObjs es) @ rest)
      = Some (x1, i, first, concat (map entryObjs es) @ rest)"
    using Cons.prems(4) by (auto simp: readEntry_entryObjs[OF wf] x1_def)
  have "readEntries x i first n (concat (map entryObjs (e # es)) @ rest)
      = readEntries x1 (i + 1) first n (concat (map entryObjs es) @ rest)"
    using lt st by (subst readEntries.simps) simp
  also have "\<dots> = readXRefTable (x1\<lparr>entries := storeFirstWins (entries x1) (i + 1) es\<rparr>) rest"
    using Cons.prems by (intro Cons.IH) auto
  also have "x1\<lparr>entries := storeFirstWins (entries x1) (i + 1) es\<rparr>
      = x\<lparr>entries := storeFirstWins (entries x) i (e # es)\<rparr>"
    by (simp add: x1_def)
  finally show ?case .
qed

text \<open>
  C4, amended. Take a subsection whose head declares \<open>first\<close> and as many entries as
  follow, all of them accepted by the reader. If \<open>first\<close> is \<open>1\<close>, the first entry is
  \<open>0000000000 65535 f\<close> and the slots \<open>0\<close> and \<open>1\<close> are both empty, the subsection is read
  as if it had been declared from \<open>0\<close>: that entry goes to slot \<open>0\<close> and the others
  follow from slot \<open>1\<close>. If \<open>first\<close> is not \<open>1\<close>, or the first entry is another one, or
  slot \<open>1\<close> is filled already, nothing is renumbered: the entries go to the declared
  indices. In both cases an entry is stored only where the slot is still empty.
\<close>

theorem readXRefTable_renumbering:
  assumes "\<forall>e\<in>set es. wellFormedEntry e"
    and "0 \<le> first" and "first + int (length es) < 2 ^ 31"
  shows "(first = 1 \<and> es \<noteq> [] \<and> legacyFreeHead (hd es) \<and> entries x 0 = None \<and> entries x 1 = None \<longrightarrow>
            readXRefTable x
              (ONum first # ONum (int (length es)) # concat (map entryObjs es) @ rest)
            = readXRefTable (x\<lparr>entries := storeFirstWins (entries x) 0 es\<rparr>) rest) \<and>
         (\<not> (first = 1 \<and> es \<noteq> [] \<and> legacyFreeHead (hd es) \<and> entries x 1 = None) \<longrightarrow>
            readXRefTable x
              (ONum first # ONum (int (length es)) # concat (map entryObjs es) @ rest)
            = readXRefTable (x\<lparr>entries := storeFirstWins (entries x) first es\<rparr>) rest)"
proof -
  let ?toks = "concat (map entryObjs es) @ rest"
  have head: "readXRefTable x (ONum first # ONum (int (length es)) # ?toks)
      = readEntries x first first (int (length es)) ?toks"
    using assms(2,3) by (subst readXRefTable.simps) (simp add: readSubsectionHead_ints)
  have renumber: "readEntries x first first (int (length es)) ?toks
      = readXRefTable (x\<lparr>entries := storeFirstWins (entries x) 0 es\<rparr>) rest"
    if c: "first = 1" "es \<noteq> []" "legacyFreeHead (hd es)" "entries x 0 = None" "entries x 1 = None"
  proof -
    obtain e es' where es: "es = e # es'" using c(2) by (cases es) auto
    have wf: "wellFormedEntry e" using assms(1) es by simp
    let ?x1 = "x\<lparr>entries := (entries x)(0 \<mapsto> e)\<rparr>"
    have st: "readEntry x 1 1 (entryObjs e @ concat (map entryObjs es') @ rest)
        = Some (?x1, 0, 0, concat (map entryObjs es') @ rest)"
      using c es by (simp add: readEntry_entryObjs[OF wf])
    have "readEntries x first first (int (length es)) ?toks
        = readEntries ?x1 1 0 (int (length es)) (concat (map entryObjs es') @ rest)"
      using st c(1) es by (subst readEntries.simps) simp
    also have "\<dots> = readXRefTable (?x1\<lparr>entries := storeFirstWins (entries ?x1) 1 es'\<rparr>) rest"
      using assms(1) es by (intro readEntries_plain) auto
    also have "?x1\<lparr>entries := storeFirstWins (entries ?x1) 1 es'\<rparr>
        = x\<lparr>entries := storeFirstWins (entries x) 0 es\<rparr>"
      using c(4) es by simp
    finally show ?thesis .
  qed
  have plain: "readEntries x first first (int (length es)) ?toks
      = readXRefTable (x\<lparr>entries := storeFirstWins (entries x) first es\<rparr>) rest"
    if c: "\<not> (first = 1 \<and> es \<noteq> [] \<and> legacyFreeHead (hd es) \<and> entries x 1 = None)"
  proof (cases "first = 1 \<and> es \<noteq> []")
    case False
    show ?thesis
    proof (cases "es = []")
      case True
      then show ?thesis by (subst readEntries.simps) simp
    next
      case False
      with \<open>\<not> (first = 1 \<and> es \<noteq> [])\<close> have "first \<noteq> 1" by simp
      then show ?thesis using assms(1) by (intro readEntries_plain) auto
    qed
  next
    case True
    then obtain e es' where es: "es = e # es'" by (cases es) auto
    have wf: "wellFormedEntry e" using assms(1) es by simp
    define x1 where "x1 = (if entries x 1 = None then x\<lparr>entries := (entries x)(1 \<mapsto> e)\<rparr> else x)"
    have st: "readEntry x 1 1 (entryObjs e @ concat (map entryObjs es') @ rest)
        = Some (x1, 1, 1, concat (map entryObjs es') @ rest)"
      using c True es by (auto simp: readEntry_entryObjs[OF wf] x1_def)
    have "readEntries x first first (int (length es)) ?toks
        = readEntries x1 2 1 (int (length es)) (concat (map entryObjs es') @ rest)"
      using st True es by (subst readEntries.simps) simp
    also have "\<dots> = readXRefTable (x1\<lparr>entries := storeFirstWins (entries x1) 2 es'\<rparr>) rest"
      using assms(1) es by (intro readEntries_plain) auto
    also have "x1\<lparr>entries := storeFirstWins (entries x1) 2 es'\<rparr>
        = x\<lparr>entries := storeFirstWins (entries x) first es\<rparr>"
      using True es by (simp add: x1_def)
    finally show ?thesis .
  qed
  show ?thesis using head renumber plain by metis
qed

text \<open>
  A table \<open>1 2\<close> that starts with the free head is renumbered from \<open>0\<close>; the same
  entries declared from \<open>3\<close> stay where they are declared.
\<close>

theorem readXRefTable_renumbering_witness:
  "readXRefTable \<lparr>entries = Map.empty, ok = False\<rparr>
     [ONum 1, ONum 2, ONum 0, ONum 65535, OCmd ''f'', ONum 17, ONum 0, OCmd ''n'', OCmd ''trailer'']
   = (True, \<lparr>entries = [0 \<mapsto> \<lparr>offset = 0, gen = 65535, uncompressed = False, free = True\<rparr>,
                         1 \<mapsto> \<lparr>offset = 17, gen = 0, uncompressed = True, free = False\<rparr>],
             ok = True\<rparr>) \<and>
   readXRefTable \<lparr>entries = Map.empty, ok = False\<rparr>
     [ONum 3, ONum 2, ONum 0, ONum 65535, OCmd ''f'', ONum 17, ONum 0, OCmd ''n'', OCmd ''trailer'']
   = (True, \<lparr>entries = [3 \<mapsto> \<lparr>offset = 0, gen = 65535, uncompressed = False, free = True\<rparr>,
                         4 \<mapsto> \<lparr>offset = 17, gen = 0, uncompressed = True, free = False\<rparr>],
             ok = True\<rparr>)"
proof -
  let ?h = "\<lparr>offset = 0, gen = 65535, uncompressed = False, free = True\<rparr>"
  let ?e = "\<lparr>offset = 17, gen = 0, uncompressed = True, free = False\<rparr>"
  let ?x = "\<lparr>entries = Map.empty, ok = False\<rparr>"
  have wf: "\<forall>e\<in>set [?h, ?e]. wellFormedEntry e"
    by (simp add: wellFormedEntry_def ToInt32_def)
  have trailer: "\<And>x. readXRefTable x [OCmd ''trailer''] = (True, x\<lparr>ok := True\<rparr>)"
    by (subst readXRefTable.simps) (simp add: readSubsectionHead_def getObj_def)
  have a: "1 = (1::int) \<and> [?h, ?e] \<noteq> [] \<and> legacyFreeHead (hd [?h, ?e]) \<and>
      entries ?x 0 = None \<and> entries ?x 1 = None"
    by (simp add: legacyFreeHead_def)
  have b: "\<not> (3 = (1::int) \<and> [?h, ?e] \<noteq> [] \<and> legacyFreeHead (hd [?h, ?e]) \<and> entries ?x 1 = None)"
    by simp
  show ?thesis
    using readXRefTable_renumbering[OF wf, of 1 ?x "[OCmd ''trailer'']"]
      readXRefTable_renumbering[OF wf, of 3 ?x "[OCmd ''trailer'']"] a b
    by (simp add: trailer entryObjs_def)
qed

text \<open>
  C4 as stated fails: the second subsection below is declared from \<open>1\<close> and starts
  with \<open>0000000000 65535 f\<close>, but slot \<open>1\<close> is taken by then, so nothing is renumbered:
  slot \<open>0\<close> stays empty and the entry behind the free head lands in slot \<open>2\<close>.
\<close>

theorem readXRefTable_renumbering_counterexample:
  "readXRefTable \<lparr>entries = Map.empty, ok = False\<rparr>
     [ONum 1, ONum 1, ONum 500, ONum 0, OCmd ''n'',
      ONum 1, ONum 2, ONum 0, ONum 65535, OCmd ''f'', ONum 700, ONum 0, OCmd ''n'',
      OCmd ''trailer'']
   = (True, \<lparr>entries = [1 \<mapsto> \<lparr>offset = 500, gen = 0, uncompressed = True, free = False\<rparr>,
                         2 \<mapsto> \<lparr>offset = 700, gen = 0, uncompressed = True, free = False\<rparr>],
             ok = True\<rparr>)"
  by (simp add: readXRefTable.simps readEntries.simps readSubsectionHead_def readEntry_def
      getObj_def ToInt32_def)

section \<open>Lexer (pdf.js, lines 176-459)\<close>

text \<open>
  The table \<open>specialChars\<close>, one line for every sixteen character codes: \<open>1\<close> marks white
  space, \<open>1\<close> or \<open>2\<close> ends a name or a command.
\<close>

definition specialChars :: "nat list" where
  "specialChars =
     [
      1, 0, 0, 0, 0, 0, 0, 0, 0, 1, 1, 0, 1, 1, 0, 0,
      0, 0, 0, 0, 0, 0, 0, 0, 0, 0, 0, 0, 0, 0, 0, 0,
      1, 0, 0, 0, 0, 2, 0, 0, 2, 2, 0, 0, 0, 0, 0, 2,
      0, 0, 0, 0, 0, 0, 0, 0, 0, 0, 0, 0, 2, 0, 2, 0,
      0, 0, 0, 0, 0, 0, 0, 0, 0, 0, 0, 0, 0, 0, 0, 0,
      0, 0, 0, 0, 0, 0, 0, 0, 0, 0, 0, 2, 0, 2, 0, 0,
      0, 0, 0, 0, 0, 0, 0, 0, 0, 0, 0, 0, 0, 0, 0, 0,
      0, 0, 0, 0, 0, 0, 0, 0, 0, 0, 0, 2, 0, 2, 0, 0,
      0, 0, 0, 0, 0, 0, 0, 0, 0, 0, 0, 0, 0, 0, 0, 0,
      0, 0, 0, 0, 0, 0, 0, 0, 0, 0, 0, 0, 0, 0, 0, 0,
      0, 0, 0, 0, 0, 0, 0, 0, 0, 0, 0, 0, 0, 0, 0, 0,
      0, 0, 0, 0, 0, 0, 0, 0, 0, 0, 0, 0, 0, 0, 0, 0,
      0, 0, 0, 0, 0, 0, 0, 0, 0, 0, 0, 0, 0, 0, 0, 0,
      0, 0, 0, 0, 0, 0, 0, 0, 0, 0, 0, 0, 0, 0, 0, 0,
      0, 0, 0, 0, 0, 0, 0, 0, 0, 0, 0, 0, 0, 0, 0, 0,
      0, 0, 0, 0, 0, 0, 0, 0, 0, 0, 0, 0, 0, 0, 0, 0]"

text \<open>
  The result of an arithmetic expression that may fail to be a number.
\<close>

datatype jsnum = Num int | NaN

text \<open>
  \<open>String.prototype.toLowerCase\<close> on the code of a character, written out for the
  characters a byte can hold.
\<close>

definition toLowerCase :: "nat \<Rightarrow> nat" where
  "toLowerCase c =
     (if (65 \<le> c \<and> c \<le> 90) \<or> (192 \<le> c \<and> c \<le> 222 \<and> c \<noteq> 215) then c + 32 else c)"

text \<open>
  \<open>ToHexDigit (ch)\<close> (lines 207-214). A digit gives \<open>ch - "0"\<close>, its value. For a letter
  \<open>a\<close> to \<open>f\<close> the function returns \<open>ch - "a"\<close>, the difference of two strings neither of
  which is a numeral: \<open>NaN\<close>. For \<open>undefined\<close> the comparisons fail and
  \<open>ch.toLowerCase ()\<close> raises a \<open>TypeError\<close>.
\<close>

definition ToHexDigit :: "nat option \<Rightarrow> js_error + jsnum" where
  "ToHexDigit ch =
     (case ch of
        None \<Rightarrow> Inl TypeError
      | Some c \<Rightarrow>
          if 48 \<le> c \<and> c \<le> 57 then Inr (Num (int c - 48))
          else if 97 \<le> toLowerCase c \<and> toLowerCase c \<le> 102 then Inr NaN
          else Inr (Num (- 1)))"

text \<open>
  \<open>String.fromCharCode ((x << 4) | x2)\<close>: the operands of the bit operations are
  converted to 32-bit integers, \<open>NaN\<close> to \<open>0\<close>; the character code is the result modulo
  \<open>2^16\<close>.
\<close>

definition jsInt32 :: "jsnum \<Rightarrow> 32 word" where
  "jsInt32 v = (case v of NaN \<Rightarrow> 0 | Num i \<Rightarrow> word_of_int i)"

definition hexCharCode :: "jsnum \<Rightarrow> jsnum \<Rightarrow> nat" where
  "hexCharCode x x2 = unat (push_bit 4 (jsInt32 x) OR jsInt32 x2) mod 65536"

text \<open>
  The loop of \<open>getName\<close> (lines 337-355) on the stream, with the string built so far and
  the messages \<open>this.error\<close> has printed so far.
\<close>

function getName_loop ::
  "Stream \<Rightarrow> jsstring \<Rightarrow> string list \<Rightarrow> js_error + (jsstring \<times> Stream \<times> string list)" where
  "getName_loop s acc msgs =
     (case lookChar s of
        None \<Rightarrow> Inr (acc, s, msgs)
      | Some ch \<Rightarrow>
          if specialChars ! ch \<noteq> 0 then Inr (acc, s, msgs)
          else
            let s1 = snd (getChar s) in
            if ch = 35 then
              (let ch2 = lookChar s1 in
               case ToHexDigit ch2 of
                 Inl e \<Rightarrow> Inl e
               | Inr x \<Rightarrow>
                   if x \<noteq> Num (- 1) then
                     (let s2 = snd (getChar s1);
                          ch3 = fst (getChar s2);
                          s3 = snd (getChar s2)
                      in case ToHexDigit ch3 of
                           Inl e \<Rightarrow> Inl e
                         | Inr x2 \<Rightarrow>
                             getName_loop s3 (acc @ [hexCharCode x x2])
                               (if x2 = Num (- 1)
                                then msgs @ [''Illegal digit in hex char in name'']
                                else msgs))
                   else getName_loop s1 (append_ToString (acc @ [35]) ch2) msgs)
            else getName_loop s1 (acc @ [ch]) msgs)"
  by pat_completeness auto
termination
  by (relation "measure (\<lambda>(s, acc, msgs). length (bytes s) - pos s)")
     (auto simp: lookChar_def getChar_def split: if_splits)

declare getName_loop.simps [simp del]

text \<open>
  What the lexer has read when it returns: the text of a name or of a command (an
  object is then created from it with \<open>new\<close>), a boolean, \<open>null\<close>, one of the markers
  \<open>EOF\<close> and \<open>Error\<close>, or whatever \<open>getNumber\<close>, \<open>getString\<close> or \<open>getHexString\<close> returns
  for the character handed to it. These three methods are modelled with the parser, further
  below; the lexeme records the call.
\<close>

datatype lexeme =
    LName jsstring
  | LCmd jsstring
  | LBool bool
  | LNull
  | LEOF
  | LError
  | ByGetNumber nat
  | ByGetString nat
  | ByGetHexString "nat option"

text \<open>
  \<open>getName (ch)\<close> up to its \<open>return\<close>: the text of the name, the stream behind it and
  the messages printed. The argument \<open>ch\<close> is overwritten before it is read.
\<close>

definition getName_scan :: "Stream \<Rightarrow> js_error + (jsstring \<times> Stream \<times> string list)" where
  "getName_scan s =
     (case getName_loop s [] [] of
        Inl e \<Rightarrow> Inl e
      | Inr (name, s', msgs) \<Rightarrow>
          Inr (name, s',
               msgs @ (if length name > 128
                       then [''Warning: name token is longer than allowed by the specification'']
                       else [])))"

text \<open>
  \<open>getObj\<close>, first loop (lines 387-398): white space and comments are skipped. The
  result is the character that ends the loop, or \<open>None\<close> at the end of the stream,
  where \<open>getObj\<close> returns \<open>EOF\<close>.
\<close>

function skipSpace :: "Stream \<Rightarrow> bool \<Rightarrow> nat option \<times> Stream" where
  "skipSpace s comment =
     (case fst (getChar s) of
        None \<Rightarrow> (None, snd (getChar s))
      | Some ch \<Rightarrow>
          if comment then
            (if ch = 13 \<or> ch = 10 then skipSpace (snd (getChar s)) False
             else skipSpace (snd (getChar s)) True)
          else if ch = 37 then skipSpace (snd (getChar s)) True
          else if specialChars ! ch \<noteq> 1 then (Some ch, snd (getChar s))
          else skipSpace (snd (getChar s)) False)"
  by pat_completeness auto
termination
  by (relation "measure (\<lambda>(s, comment). length (bytes s) - pos s)")
     (auto simp: lookChar_def getChar_def split: if_splits)

declare skipSpace.simps [simp del]

text \<open>
  \<open>getObj\<close>, last loop (lines 439-447): the characters of a command. The function
  \<open>error\<close> called for a token of more than 128 characters is not defined anywhere in
  the file, so the call raises a \<open>ReferenceError\<close>.
\<close>

function getCmd_loop :: "Stream \<Rightarrow> jsstring \<Rightarrow> js_error + (jsstring \<times> Stream)" where
  "getCmd_loop s acc =
     (case lookChar s of
        None \<Rightarrow> Inr (acc, s)
      | Some ch \<Rightarrow>
          if specialChars ! ch \<noteq> 0 then Inr (acc, s)
          else if length acc = 128 then Inl ReferenceError
          else getCmd_loop (snd (getChar s)) (acc @ [ch]))"
  by pat_completeness auto
termination
  by (relation "measure (\<lambda>(s, acc). length (bytes s) - pos s)")
     (auto simp: lookChar_def getChar_def split: if_splits)

declare getCmd_loop.simps [simp del]

text \<open>
  \<open>Lexer.getObj\<close> (lines 382-455) up to the value it returns.
\<close>

definition scanObj :: "Stream \<Rightarrow> js_error + (lexeme \<times> Stream \<times> string list)" where
  "scanObj s0 =
     (case skipSpace s0 False of
        (None, s) \<Rightarrow> Inr (LEOF, s, [])
      | (Some ch, s) \<Rightarrow>
          if (48 \<le> ch \<and> ch \<le> 57) \<or> ch = 43 \<or> ch = 45 \<or> ch = 46
            then Inr (ByGetNumber ch, s, [])
          else if ch = 40 then Inr (ByGetString ch, s, [])
          else if ch = 47 then
            (case getName_scan s of
               Inl e \<Rightarrow> Inl e
             | Inr (name, s', msgs) \<Rightarrow> Inr (LName name, s', msgs))
          else if ch = 91 \<or> ch = 93 then Inr (LCmd [ch], s, [])
          else if ch = 60 then
            (if lookChar s = Some 60 then Inr (LCmd [60], snd (getChar s), [])
             else Inr (ByGetHexString (lookChar s), s, []))
          else if ch = 62 \<and> lookChar s = Some 62 then Inr (LCmd [62], snd (getChar s), [])
          else if ch = 62 \<or> ch = 41 \<or> ch = 123 \<or> ch = 125 then
            Inr (LError, s, [''Illegal character''])
          else
            (case getCmd_loop s [ch] of
               Inl e \<Rightarrow> Inl e
             | Inr (cmd, s') \<Rightarrow>
                 if cmd = str ''true'' then Inr (LBool True, s', [])
                 else if cmd = str ''false'' then Inr (LBool False, s', [])
                 else if cmd = str ''null'' then Inr (LNull, s', [])
                 else Inr (LCmd cmd, s', [])))"

text \<open>
  The objects the lexer creates with \<open>new\<close>. The heap is the list of the objects
  created so far, and the address of an object is its index in that list: two
  references are the same object exactly when the addresses are equal.
\<close>

datatype heapobj = Name jsstring | Cmd jsstring

text \<open>
  The lexer with the part of the world it changes: its stream, the lines that
  \<open>this.error\<close> has printed, and the heap.
\<close>

record lexstate =
  stream :: Stream
  printed :: "string list"
  heap :: "heapobj list"

definition new :: "heapobj \<Rightarrow> lexstate \<Rightarrow> nat \<times> lexstate" where
  "new v L = (length (heap L), L\<lparr>heap := heap L @ [v]\<rparr>)"

text \<open>
  The value returned: \<open>new Name (str)\<close> (line 358) and \<open>new Cmd (...)\<close> (lines 413,
  420, 428 and 454) are references to objects made on the spot; the other values
  are not objects of the heap.
\<close>

datatype token = TRef nat | TValue lexeme

fun construct :: "lexeme \<Rightarrow> lexstate \<Rightarrow> token \<times> lexstate" where
  "construct (LName name) L = (case new (Name name) L of (a, L') \<Rightarrow> (TRef a, L'))"
| "construct (LCmd cmd) L = (case new (Cmd cmd) L of (a, L') \<Rightarrow> (TRef a, L'))"
| "construct v L = (TValue v, L)"

definition getName :: "lexstate \<Rightarrow> js_error + (token \<times> lexstate)" where
  "getName L =
     (case getName_scan (stream L) of
        Inl e \<Rightarrow> Inl e
      | Inr (name, s, msgs) \<Rightarrow>
          Inr (construct (LName name) (L\<lparr>stream := s, printed := printed L @ msgs\<rparr>)))"

definition Lexer_getObj :: "lexstate \<Rightarrow> js_error + (token \<times> lexstate)" where
  "Lexer_getObj L =
     (case scanObj (stream L) of
        Inl e \<Rightarrow> Inl e
      | Inr (v, s, msgs) \<Rightarrow>
          Inr (construct v (L\<lparr>stream := s, printed := printed L @ msgs\<rparr>)))"

subsection \<open>Names and commands as objects; escapes in names\<close>

text \<open>
  The entries of the table for the characters of the examples below.
\<close>

lemma specialChars_at:
  "specialChars ! 32 = 1" "specialChars ! 35 = 0" "specialChars ! 47 = 2"
  "specialChars ! 49 = 0" "specialChars ! 50 = 0" "specialChars ! 52 = 0"
  "specialChars ! 65 = 0" "specialChars ! 66 = 0" "specialChars ! 70 = 0"
  "specialChars ! 99 = 0" "specialChars ! 109 = 0"
  by (simp_all add: specialChars_def)

lemma hexCharCode_at:
  "hexCharCode (Num 2) NaN = 32" "hexCharCode (Num 2) (Num 0) = 32"
  "hexCharCode (Num 4) (Num 1) = 65"
  by (simp_all add: hexCharCode_def jsInt32_def)

text \<open>
  C5 as stated fails: nothing is interned. The name \<open>/A\<close> read twice gives the objects
  at the addresses \<open>0\<close> and \<open>1\<close>, two \<open>Name\<close> objects with the same text; the command
  \<open>cm\<close> read twice gives two \<open>Cmd\<close> objects likewise.
\<close>

theorem Lexer_getObj_identity_counterexample:
  "Lexer_getObj \<lparr>stream = \<lparr>bytes = ''/A /A'', pos = 0\<rparr>, printed = [], heap = []\<rparr>
     = Inr (TRef 0, \<lparr>stream = \<lparr>bytes = ''/A /A'', pos = 2\<rparr>, printed = [], heap = [Name [65]]\<rparr>) \<and>
   Lexer_getObj \<lparr>stream = \<lparr>bytes = ''/A /A'', pos = 2\<rparr>, printed = [], heap = [Name [65]]\<rparr>
     = Inr (TRef 1, \<lparr>stream = \<lparr>bytes = ''/A /A'', pos = 5\<rparr>, printed = [],
                     heap = [Name [65], Name [65]]\<rparr>) \<and>
   Lexer_getObj \<lparr>stream = \<lparr>bytes = ''cm cm'', pos = 0\<rparr>, printed = [], heap = []\<rparr>
     = Inr (TRef 0, \<lparr>stream = \<lparr>bytes = ''cm cm'', pos = 2\<rparr>, printed = [],
                     heap = [Cmd [99, 109]]\<rparr>) \<and>
   Lexer_getObj \<lparr>stream = \<lparr>bytes = ''cm cm'', pos = 2\<rparr>, printed = [], heap = [Cmd [99, 109]]\<rparr>
     = Inr (TRef 1, \<lparr>stream = \<lparr>bytes = ''cm cm'', pos = 5\<rparr>, printed = [],
                     heap = [Cmd [99, 109], Cmd [99, 109]]\<rparr>)"
  by (simp add: Lexer_getObj_def scanObj_def skipSpace.simps getName_scan_def getName_loop.simps
        getCmd_loop.simps lookChar_def getChar_def new_def specialChars_at str_def)

lemma construct_allocates:
  "construct v L = (TRef a, L') \<Longrightarrow>
     a = length (heap L) \<and> (\<exists>w. heap L' = heap L @ [w] \<and>
       (\<forall>M. \<exists>M'. construct v M = (TRef (length (heap M)), M') \<and> heap M' = heap M @ [w]))"
  by (cases v) (auto simp: new_def)

lemma Lexer_getObj_allocates:
  assumes "Lexer_getObj L = Inr (TRef a, L')"
  shows "a = length (heap L) \<and> (\<exists>w. heap L' = heap L @ [w])"
proof -
  from assms obtain v s msgs where
    "construct v (L\<lparr>stream := s, printed := printed L @ msgs\<rparr>) = (TRef a, L')"
    by (auto simp: Lexer_getObj_def split: sum.splits)
  from construct_allocates[OF this] show ?thesis by auto
qed

text \<open>
  C5, amended. Take any two references returned by the lexer (to a \<open>Name\<close> or a \<open>Cmd\<close>,
  the only objects it creates), on any streams and at any positions, the second one
  returned in a world that still holds the objects made up to the first. The two are
  different objects, both alive, and the first object is what it was: whatever the
  texts, and in particular when the two tokens have identical string content, the
  lexer hands out two objects and their comparison by identity is false.
\<close>

theorem Lexer_getObj_new_object:
  assumes "Lexer_getObj L = Inr (TRef a1, L1)"
    and "Lexer_getObj M = Inr (TRef a2, L2)"
    and "take (length (heap L1)) (heap M) = heap L1"
  shows "a1 \<noteq> a2 \<and> a1 < length (heap L2) \<and> a2 < length (heap L2) \<and>
         heap L2 ! a1 = heap L1 ! a1"
proof -
  from Lexer_getObj_allocates[OF assms(1)] obtain w where
    a1: "a1 = length (heap L)" and h1: "heap L1 = heap L @ [w]"
    by auto
  from Lexer_getObj_allocates[OF assms(2)] obtain w' where
    a2: "a2 = length (heap M)" and h2: "heap L2 = heap M @ [w']"
    by auto
  have len: "length (heap L1) \<le> length (heap M)"
    using arg_cong[OF assms(3), of length] by simp
  have lt: "a1 < length (heap M)" using len a1 h1 by simp
  have "heap M ! a1 = take (length (heap L1)) (heap M) ! a1"
    using a1 h1 by simp
  also have "\<dots> = heap L1 ! a1" using assms(3) by simp
  finally have "heap L2 ! a1 = heap L1 ! a1" using h2 lt by (simp add: nth_append)
  then show ?thesis using lt a2 h2 by simp
qed

text \<open>
  The names \<open>/A\<close> and \<open>/#41\<close>, one read after the other: both have the text \<open>A\<close>, and
  they are the objects at the addresses \<open>0\<close> and \<open>1\<close>.
\<close>

theorem Lexer_getObj_new_object_witness:
  "Lexer_getObj \<lparr>stream = \<lparr>bytes = ''/A /#41'', pos = 0\<rparr>, printed = [], heap = []\<rparr>
     = Inr (TRef 0, \<lparr>stream = \<lparr>bytes = ''/A /#41'', pos = 2\<rparr>, printed = [], heap = [Name [65]]\<rparr>) \<and>
   Lexer_getObj \<lparr>stream = \<lparr>bytes = ''/A /#41'', pos = 2\<rparr>, printed = [], heap = [Name [65]]\<rparr>
     = Inr (TRef 1, \<lparr>stream = \<lparr>bytes = ''/A /#41'', pos = 7\<rparr>, printed = [],
                     heap = [Name [65], Name [65]]\<rparr>) \<and>
   (0::nat) \<noteq> 1 \<and> (0::nat) < length [Name [65], Name [65]] \<and>
   (1::nat) < length [Name [65], Name [65]] \<and>
   [Name [65], Name [65]] ! 0 = [Name [65]] ! 0 \<and>
   [Name [65], Name [65]] ! 0 = [Name [65], Name [65]] ! 1"
proof -
  let ?L = "\<lparr>stream = \<lparr>bytes = ''/A /#41'', pos = 0\<rparr>, printed = [], heap = []\<rparr>"
  let ?L1 = "\<lparr>stream = \<lparr>bytes = ''/A /#41'', pos = 2\<rparr>, printed = [], heap = [Name [65]]\<rparr>"
  let ?L2 = "\<lparr>stream = \<lparr>bytes = ''/A /#41'', pos = 7\<rparr>, printed = [],
              heap = [Name [65], Name [65]]\<rparr>"
  have first: "Lexer_getObj ?L = Inr (TRef 0, ?L1)"
    by (simp add: Lexer_getObj_def scanObj_def skipSpace.simps getName_scan_def getName_loop.simps
        lookChar_def getChar_def new_def specialChars_at)
  have second: "Lexer_getObj ?L1 = Inr (TRef 1, ?L2)"
    by (simp add: Lexer_getObj_def scanObj_def skipSpace.simps getName_scan_def getName_loop.simps
        lookChar_def getChar_def new_def specialChars_at
        ToHexDigit_def toLowerCase_def hexCharCode_at)
  have later: "take (length (heap ?L1)) (heap ?L1) = heap ?L1" by simp
  show ?thesis using Lexer_getObj_new_object[OF first second later] first second by simp
qed

text \<open>
  When the lexer reads the same bytes from the same position once more, it returns a
  reference again, to a second object with the text of the first.
\<close>

lemma Lexer_getObj_again:
  assumes "Lexer_getObj L = Inr (TRef a1, L1)"
    and "stream M = stream L"
    and "take (length (heap L1)) (heap M) = heap L1"
  shows "\<exists>a2 L2. Lexer_getObj M = Inr (TRef a2, L2) \<and> heap L2 ! a2 = heap L1 ! a1"
proof -
  from assms(1) obtain v s msgs where
    scan: "scanObj (stream L) = Inr (v, s, msgs)" and
    con: "construct v (L\<lparr>stream := s, printed := printed L @ msgs\<rparr>) = (TRef a1, L1)"
    by (auto simp: Lexer_getObj_def split: sum.splits)
  from construct_allocates[OF con] obtain w where
    a1: "a1 = length (heap L)" and h1: "heap L1 = heap L @ [w]" and
    again: "\<And>M. \<exists>M'. construct v M = (TRef (length (heap M)), M') \<and> heap M' = heap M @ [w]"
    by auto
  from again[of "M\<lparr>stream := s, printed := printed M @ msgs\<rparr>"] obtain L2 where
    con2: "construct v (M\<lparr>stream := s, printed := printed M @ msgs\<rparr>) = (TRef (length (heap M)), L2)"
    and h2: "heap L2 = heap M @ [w]"
    by auto
  have run: "Lexer_getObj M = Inr (TRef (length (heap M)), L2)"
    using scan con2 assms(2) by (simp add: Lexer_getObj_def)
  have "heap L2 ! length (heap M) = heap L1 ! a1" using h2 h1 a1 by simp
  with run show ?thesis by blast
qed

text \<open>
  C6. The claim is that \<open>#XX\<close> with two hexadecimal digits decodes to the byte
  \<open>0xXX\<close>. At \<open>/A#2FB\<close> the code gives the name \<open>A B\<close>, with the character \<open>0x20\<close>, where
  the claim says \<open>A/B\<close>, with \<open>0x2F\<close>: \<open>ToHexDigit\<close> returns \<open>NaN\<close> for the digit \<open>F\<close>, which
  the bit operations read as \<open>0\<close>. With decimal digits only, as in \<open>/A#20B\<close>, the escape
  is decoded as claimed.
\<close>

theorem getName_hex_letter_escape:
  "Lexer_getObj \<lparr>stream = \<lparr>bytes = ''/A#2FB '', pos = 0\<rparr>, printed = [], heap = []\<rparr>
     = Inr (TRef 0, \<lparr>stream = \<lparr>bytes = ''/A#2FB '', pos = 6\<rparr>, printed = [],
                     heap = [Name [65, 32, 66]]\<rparr>) \<and>
   Lexer_getObj \<lparr>stream = \<lparr>bytes = ''/A#20B '', pos = 0\<rparr>, printed = [], heap = []\<rparr>
     = Inr (TRef 0, \<lparr>stream = \<lparr>bytes = ''/A#20B '', pos = 6\<rparr>, printed = [],
                     heap = [Name [65, 32, 66]]\<rparr>) \<and>
   str ''A/B'' = [65, 47, 66] \<and> str ''A B'' = [65, 32, 66]"
  by (simp add: Lexer_getObj_def scanObj_def skipSpace.simps getName_scan_def getName_loop.simps
        lookChar_def getChar_def new_def specialChars_at str_def
        ToHexDigit_def toLowerCase_def hexCharCode_at)

text \<open>
  The other half of C6 holds: once the loop of \<open>getName\<close> has read a name, a \<open>Name\<close> is
  returned whatever its length; beyond 128 characters a line is printed, nothing
  else.
\<close>

lemma getName_long_name:
  assumes "getName_loop s [] [] = Inr (name, s', msgs)" and "128 < length name"
  shows "getName \<lparr>stream = s, printed = p, heap = h\<rparr>
     = Inr (TRef (length h),
            \<lparr>stream = s',
             printed = p @ msgs @ [''Warning: name token is longer than allowed by the specification''],
             heap = h @ [Name name]\<rparr>)"
  using assms by (simp add: getName_def getName_scan_def new_def)

section \<open>Type1Parser: decodeCharString (fonts.js, lines 1120-1234)\<close>

text \<open>
  What a lookup in \<open>charStringDictionary\<close> finds: nothing, \<open>null\<close>, the name of a
  command, or \<open>-1\<close>.
\<close>

datatype cs_entry = EUndefined | ENull | ECommand string | EMinusOne

text \<open>\<open>charStringDictionary[value]\<close> for a byte below 32 other than 12.\<close>

definition charStringDictionary :: "nat \<Rightarrow> cs_entry" where
  "charStringDictionary v =
     (if v = 1 then ECommand ''hstem''
      else if v = 3 then ECommand ''vstem''
      else if v = 4 then ECommand ''vmoveto''
      else if v = 5 then ECommand ''rlineto''
      else if v = 6 then ECommand ''hlineto''
      else if v = 7 then ECommand ''vlineto''
      else if v = 8 then ECommand ''rrcurveto''
      else if v = 9 then ENull
      else if v = 10 then ECommand ''callsubr''
      else if v = 11 then ECommand ''return''
      else if v = 13 then ECommand ''hsbw''
      else if v = 14 then ECommand ''endchar''
      else if v = 21 then ECommand ''rmoveto''
      else if v = 22 then ECommand ''hmoveto''
      else if v = 30 then ECommand ''vhcurveto''
      else if v = 31 then ECommand ''hvcurveto''
      else EUndefined)"

text \<open>
  \<open>charStringDictionary["12"][escape]\<close>; \<open>escape\<close> is \<open>undefined\<close> when 12 is the last
  byte.
\<close>

definition charStringDictionary12 :: "nat option \<Rightarrow> cs_entry" where
  "charStringDictionary12 escape =
     (case escape of
        None \<Rightarrow> EUndefined
      | Some v \<Rightarrow>
          if v = 0 then ENull
          else if v = 1 then ECommand ''vstem''
          else if v = 2 then ECommand ''hstem''
          else if v = 6 then EMinusOne
          else if v = 7 then EMinusOne
          else if v = 12 then ECommand ''div''
          else if v = 16 then ECommand ''callothersubr''
          else if v = 17 then ECommand ''pop''
          else if v = 33 then ENull
          else EUndefined)"

text \<open>The elements of the decoded charstring: numbers (possibly \<open>NaN\<close>) and commands.\<close>

datatype cs_item = CNum int | CNaN | CCmd string

text \<open>
  The error of a font that cannot be converted: the command byte and the escape byte
  last read.
\<close>

datatype font_error = NotImplemented nat "nat option"

text \<open>
  Modelled from the spec: the function \<open>error\<close> that \<open>decodeCharString\<close> calls for a
  command marked \<open>-1\<close> is defined in none of the source files. By the specification an
  unimplemented legacy Type1 operator is a fatal error for that one font, so the call
  does not return.
\<close>

definition error :: "nat \<Rightarrow> nat option \<Rightarrow> font_error + 'a" where
  "error v escape = Inl (NotImplemented v escape)"

text \<open>\<open>aArray[k]\<close>: \<open>undefined\<close> beyond the end.\<close>

definition at :: "'a list \<Rightarrow> nat \<Rightarrow> 'a option" where
  "at xs k = (if k < length xs then Some (xs ! k) else None)"

text \<open>
  The four bytes behind a byte 255 (lines 1224-1227):
  \<open>(byte - (byte >> 1)) << 24 | b2 << 16 | b3 << 8 | b4\<close>, a signed 32-bit integer. A
  byte that is missing is \<open>undefined\<close> and counts as \<open>0\<close> in these operations.
\<close>

definition orZero :: "8 word option \<Rightarrow> 32 word" where
  "orZero b = (case b of None \<Rightarrow> 0 | Some w \<Rightarrow> ucast w)"

definition number255 :: "8 word option \<Rightarrow> 8 word option \<Rightarrow> 8 word option \<Rightarrow> 8 word option \<Rightarrow> int" where
  "number255 b1 b2 b3 b4 =
     sint (push_bit 24 (orZero b1 - drop_bit 1 (orZero b1)) OR push_bit 16 (orZero b2) OR
           push_bit 8 (orZero b3) OR orZero b4)"

text \<open>
  The loop of \<open>decodeCharString\<close> from index \<open>i\<close> on, with the charstring built so far.
  \<open>parseInt\<close> of a missing byte is \<open>NaN\<close>.
\<close>

function decodeFrom :: "8 word list \<Rightarrow> nat \<Rightarrow> cs_item list \<Rightarrow> font_error + cs_item list" where
  "decodeFrom aArray i charString =
     (if \<not> i < length aArray then Inr charString
      else
        let v = unat (aArray ! i) in
        if v < 32 then
          (let i1 = (if v = 12 then i + 1 else i);
               command = (if v = 12 then charStringDictionary12 (map_option unat (at aArray (i + 1)))
                          else charStringDictionary v)
           in if (command = EUndefined \<or> command = ENull) \<and> i1 < length aArray
                then decodeFrom aArray (i1 + 1) charString
              else if command = EUndefined \<or> command = ENull then Inr charString
              else (case command of
                      ECommand name \<Rightarrow> decodeFrom aArray (i1 + 1) (charString @ [CCmd name])
                    | _ \<Rightarrow> error v (map_option unat (at aArray (i + 1)))))
        else if v \<le> 246 then decodeFrom aArray (i + 1) (charString @ [CNum (int v - 139)])
        else if v \<le> 250 then
          decodeFrom aArray (i + 2)
            (charString @
               [case at aArray (i + 1) of
                  None \<Rightarrow> CNaN
                | Some w \<Rightarrow> CNum ((int v - 247) * 256 + uint w + 108)])
        else if v \<le> 254 then
          decodeFrom aArray (i + 2)
            (charString @
               [case at aArray (i + 1) of
                  None \<Rightarrow> CNaN
                | Some w \<Rightarrow> CNum (- ((int v - 251) * 256) - uint w - 108)])
        else
          decodeFrom aArray (i + 5)
            (charString @
               [CNum (number255 (at aArray (i + 1)) (at aArray (i + 2))
                                (at aArray (i + 3)) (at aArray (i + 4)))]))"
  by pat_completeness auto
termination
  by (relation "measure (\<lambda>(aArray, i, charString). length aArray - i)") auto

declare decodeFrom.simps [simp del]

definition decodeCharString :: "8 word list \<Rightarrow> font_error + cs_item list" where
  "decodeCharString aArray = decodeFrom aArray 0 []"

text \<open>
  The number the four bytes stand for when read as the comment above the code and the
  Type1 format say: a 32-bit two's complement integer, highest byte first.
\<close>

definition twosComplement32 :: "8 word \<Rightarrow> 8 word \<Rightarrow> 8 word \<Rightarrow> 8 word \<Rightarrow> int" where
  "twosComplement32 b1 b2 b3 b4 =
     sint (push_bit 24 (ucast b1) OR push_bit 16 (ucast b2) OR push_bit 8 (ucast b3) OR
           (ucast b4 :: 32 word))"

subsection \<open>Numbers in a charstring\<close>

text \<open>
  The first three rules of C7 hold of the code: a byte \<open>v\<close> from 32 to 246 is the
  number \<open>v - 139\<close>; a byte \<open>v\<close> from 247 to 250 followed by \<open>w\<close> is
  \<open>(v - 247) * 256 + w + 108\<close>; a byte \<open>v\<close> from 251 to 254 followed by \<open>w\<close> is
  \<open>- (v - 251) * 256 - w - 108\<close>.
\<close>

lemma decodeFrom_one_and_two_byte_numbers:
  "i < length a \<Longrightarrow> 32 \<le> unat (a ! i) \<Longrightarrow> unat (a ! i) \<le> 246 \<Longrightarrow>
     decodeFrom a i cs = decodeFrom a (i + 1) (cs @ [CNum (int (unat (a ! i)) - 139)])"
  "i + 1 < length a \<Longrightarrow> 247 \<le> unat (a ! i) \<Longrightarrow> unat (a ! i) \<le> 250 \<Longrightarrow>
     decodeFrom a i cs = decodeFrom a (i + 2)
       (cs @ [CNum ((int (unat (a ! i)) - 247) * 256 + uint (a ! (i + 1)) + 108)])"
  "i + 1 < length a \<Longrightarrow> 251 \<le> unat (a ! i) \<Longrightarrow> unat (a ! i) \<le> 254 \<Longrightarrow>
     decodeFrom a i cs = decodeFrom a (i + 2)
       (cs @ [CNum (- ((int (unat (a ! i)) - 251) * 256) - uint (a ! (i + 1)) - 108)])"
  by (subst decodeFrom.simps, simp add: at_def Let_def)+

text \<open>
  C7. The fourth rule is that the four bytes behind a byte 255 are read as a 32-bit
  two's complement integer, highest byte first, as the comment in front of the code
  says too. The code takes \<open>byte - (byte >> 1)\<close> for the highest byte: the charstring
  \<open>255 255 255 255 255\<close>, which stands for \<open>-1\<close>, is decoded to \<open>-2130706433\<close>.
\<close>

theorem decodeCharString_255_not_twos_complement:
  "decodeCharString [255, 255, 255, 255, 255] = Inr [CNum (- 2130706433)] \<and>
   twosComplement32 255 255 255 255 = - 1"
proof
  have n: "number255 (Some 255) (Some 255) (Some 255) (Some 255) = - 2130706433"
    by (simp add: number255_def orZero_def)
  show "decodeCharString [255, 255, 255, 255, 255] = Inr [CNum (- 2130706433)]"
    by (simp add: decodeCharString_def decodeFrom.simps at_def n)
  show "twosComplement32 255 255 255 255 = - 1"
    by (simp add: twosComplement32_def)
qed

section \<open>CFF.getOrderedCharStrings (fonts.js, lines 1430-1452)\<close>

text \<open>
  An element of \<open>aGlyphs\<close> has the name of the glyph and its decoded charstring; an
  element of the result has the name, the code point and a copy of the charstring.
\<close>

record type1_glyph =
  glyph :: string
  data :: "cs_item list"

record ordered_charstring =
  cs_glyph :: string
  unicode :: nat
  charstring :: "cs_item list"

text \<open>
  Modelled from the spec: the function \<open>warn\<close> that \<open>getOrderedCharStrings\<close> calls is
  defined in none of the source files. By the specification such glyphs are warned
  about and dropped, nothing more: the call adds its message to the warnings issued
  and returns.
\<close>

definition warn :: "string \<Rightarrow> string list \<Rightarrow> string list" where
  "warn msg warnings = warnings @ [msg]"

text \<open>
  The loop of lines 1433-1446, with the result so far and the warnings so far. The
  table \<open>GlyphsUnicode\<close> is in none of the source files and is a parameter: a map from
  glyph names to code points. \<open>!unicode\<close> holds of a missing entry and of the code
  point \<open>0\<close>.
\<close>

fun collectCharStrings ::
  "(string \<rightharpoonup> nat) \<Rightarrow> type1_glyph list \<Rightarrow> ordered_charstring list \<Rightarrow> string list \<Rightarrow>
   ordered_charstring list \<times> string list" where
  "collectCharStrings GlyphsUnicode [] charstrings warnings = (charstrings, warnings)"
| "collectCharStrings GlyphsUnicode (g # aGlyphs) charstrings warnings =
     (let dropped =
            (if glyph g \<noteq> ''.notdef''
             then collectCharStrings GlyphsUnicode aGlyphs charstrings
                    (warn (glyph g @ '' does not have an entry in the glyphs unicode dictionary'')
                       warnings)
             else collectCharStrings GlyphsUnicode aGlyphs charstrings warnings)
      in case GlyphsUnicode (glyph g) of
           None \<Rightarrow> dropped
         | Some u \<Rightarrow>
             if u = 0 then dropped
             else collectCharStrings GlyphsUnicode aGlyphs
                    (charstrings @ [\<lparr>cs_glyph = glyph g, unicode = u, charstring = data g\<rparr>])
                    warnings)"

text \<open>
  The comparison function handed to \<open>sort\<close> returns the boolean \<open>a.unicode > b.unicode\<close>,
  which \<open>sort\<close> converts to the number \<open>1\<close> or \<open>0\<close>.
\<close>

definition compareUnicode :: "ordered_charstring \<Rightarrow> ordered_charstring \<Rightarrow> int" where
  "compareUnicode a b = (if unicode a > unicode b then 1 else 0)"

text \<open>
  \<open>getOrderedCharStrings (aGlyphs)\<close>. \<open>Array.prototype.sort\<close> belongs to the host and
  is a parameter: a function from a comparison function and an array to the sorted
  array.
\<close>

definition getOrderedCharStrings ::
  "((ordered_charstring \<Rightarrow> ordered_charstring \<Rightarrow> int) \<Rightarrow> ordered_charstring list \<Rightarrow> ordered_charstring list) \<Rightarrow>
   (string \<rightharpoonup> nat) \<Rightarrow> type1_glyph list \<Rightarrow> ordered_charstring list \<times> string list" where
  "getOrderedCharStrings arraySort GlyphsUnicode aGlyphs =
     (case collectCharStrings GlyphsUnicode aGlyphs [] [] of
        (charstrings, warnings) \<Rightarrow> (arraySort compareUnicode charstrings, warnings))"

text \<open>
  A host sort. ECMAScript asks of a comparison function a negative number when the
  first argument goes before the second, zero when they are equal in rank and a
  positive number when it goes after, and promises a sorted array only then. This
  insertion sort puts an element in front of the first one that the comparison ranks
  it before (a negative result), as the binary insertion of a current engine does.
\<close>

fun insertBy :: "('a \<Rightarrow> 'a \<Rightarrow> int) \<Rightarrow> 'a \<Rightarrow> 'a list \<Rightarrow> 'a list" where
  "insertBy comparefn x [] = [x]"
| "insertBy comparefn x (y # ys) =
     (if comparefn x y < 0 then x # y # ys else y # insertBy comparefn x ys)"

definition insertionSort :: "('a \<Rightarrow> 'a \<Rightarrow> int) \<Rightarrow> 'a list \<Rightarrow> 'a list" where
  "insertionSort comparefn xs = foldl (\<lambda>sorted x. insertBy comparefn x sorted) [] xs"

subsection \<open>The order of the charstrings\<close>

text \<open>
  The host sort above is a sort: with a comparison function that keeps to the
  contract, here the difference of two keys, its result is in ascending order.
\<close>

lemma set_insertBy: "set (insertBy c x ys) = insert x (set ys)"
  by (induction ys) auto

lemma length_insertBy: "length (insertBy c x ys) = Suc (length ys)"
  by (induction ys) auto

lemma insertBy_sorted:
  "sorted (map key ys) \<Longrightarrow> sorted (map key (insertBy (\<lambda>a b. int (key a) - int (key b)) x ys))"
  by (induction ys) (auto simp: set_insertBy)

lemma foldl_insertBy_sorted:
  "sorted (map key acc) \<Longrightarrow>
   sorted (map key (foldl (\<lambda>sorted x. insertBy (\<lambda>a b. int (key a) - int (key b)) x sorted) acc xs))"
  by (induction xs arbitrary: acc) (auto intro: insertBy_sorted)

lemma insertionSort_sorts:
  "sorted (map key (insertionSort (\<lambda>a b. int (key a) - int (key b)) xs))"
  unfolding insertionSort_def by (rule foldl_insertBy_sorted) simp

text \<open>
  C8. The claim is that the glyphs come back in ascending order of their code points.
  The comparison function of the code returns \<open>true\<close> or \<open>false\<close>, never a negative
  number, so it never tells the host that the first argument goes before the second.
  On the host sort above the glyphs \<open>B\<close>, \<open>A\<close> come back as \<open>B\<close>, \<open>A\<close>: code point 66 in
  front of 65.
\<close>

theorem getOrderedCharStrings_unsorted:
  "getOrderedCharStrings insertionSort [''A'' \<mapsto> 65, ''B'' \<mapsto> 66]
      [\<lparr>glyph = ''B'', data = [CCmd ''endchar'']\<rparr>, \<lparr>glyph = ''A'', data = [CCmd ''endchar'']\<rparr>]
   = ([\<lparr>cs_glyph = ''B'', unicode = 66, charstring = [CCmd ''endchar'']\<rparr>,
       \<lparr>cs_glyph = ''A'', unicode = 65, charstring = [CCmd ''endchar'']\<rparr>], [])"
  by (simp add: getOrderedCharStrings_def insertionSort_def compareUnicode_def)

text \<open>
  The other half of C8 holds: a glyph without a code point in the table (or with the
  code point 0) is left out, and a warning is issued for it unless its name is
  \<open>.notdef\<close>; the other glyphs are kept in their order.
\<close>

lemma collectCharStrings_filter:
  "collectCharStrings G gs cs ws =
     (cs @ map (\<lambda>g. \<lparr>cs_glyph = glyph g, unicode = the (G (glyph g)), charstring = data g\<rparr>)
             (filter (\<lambda>g. G (glyph g) \<noteq> None \<and> G (glyph g) \<noteq> Some 0) gs),
      ws @ map (\<lambda>g. glyph g @ '' does not have an entry in the glyphs unicode dictionary'')
             (filter (\<lambda>g. (G (glyph g) = None \<or> G (glyph g) = Some 0) \<and> glyph g \<noteq> ''.notdef'') gs))"
  by (induction gs arbitrary: cs ws) (auto simp: warn_def)

text \<open>
  On a host whose sort leaves no two neighbours for which the comparison function
  returns a positive number, the result is in ascending order of the code points.
\<close>

lemma getOrderedCharStrings_sorted_on_host:
  assumes "\<And>xs. \<forall>i. Suc i < length (arraySort compareUnicode xs) \<longrightarrow>
             \<not> compareUnicode (arraySort compareUnicode xs ! i) (arraySort compareUnicode xs ! Suc i) > 0"
  shows "sorted (map unicode (fst (getOrderedCharStrings arraySort G gs)))"
proof -
  obtain cs ws where c: "collectCharStrings G gs [] [] = (cs, ws)" by force
  have "\<forall>i. Suc i < length (arraySort compareUnicode cs) \<longrightarrow>
      unicode (arraySort compareUnicode cs ! i) \<le> unicode (arraySort compareUnicode cs ! Suc i)"
    using assms[of cs] by (simp add: compareUnicode_def split: if_splits) (meson not_le)
  then have "sorted (map unicode (arraySort compareUnicode cs))"
    by (simp add: sorted_iff_nth_Suc)
  then show ?thesis by (simp add: getOrderedCharStrings_def c)
qed

section \<open>Lexer: numbers and strings (pdf.js, lines 221-333 and 360-381)\<close>

text \<open>The objects read from a stream: their texts are strings of code units.\<close>

type_synonym jsobj = "nat gobj"

text \<open>
  \<open>IsEOF\<close> on these objects; the text the marker converts to is \<open>[object Object]\<close>.
\<close>

fun IsEOF_units :: "jsobj \<Rightarrow> bool" where
  "IsEOF_units OEOF = True"
| "IsEOF_units (OString t) = (t = str ''[object Object]'')"
| "IsEOF_units v = False"

text \<open>\<open>Stream.putBack\<close>; it is only called behind a \<open>getChar\<close>.\<close>

definition putBack :: "Stream \<Rightarrow> Stream" where
  "putBack s = s\<lparr>pos := pos s - 1\<rparr>"

text \<open>
  The loop of \<open>getNumber\<close> (lines 225-243), with the flag \<open>floating\<close>, the text
  collected and the messages printed. A minus sign inside the number is reported and
  skipped; an \<open>e\<close> or \<open>E\<close> sets the flag and is skipped.
\<close>

function getNumber_loop ::
  "Stream \<Rightarrow> bool \<Rightarrow> jsstring \<Rightarrow> string list \<Rightarrow> jsstring \<times> Stream \<times> string list" where
  "getNumber_loop s floating acc msgs =
     (case fst (getChar s) of
        None \<Rightarrow> (acc, putBack (snd (getChar s)), msgs)
      | Some ch \<Rightarrow>
          if ch = 46 \<and> \<not> floating then getNumber_loop (snd (getChar s)) True (acc @ [ch]) msgs
          else if ch = 45 then
            getNumber_loop (snd (getChar s)) floating acc (msgs @ [''Badly formated number''])
          else if 48 \<le> ch \<and> ch \<le> 57 then
            getNumber_loop (snd (getChar s)) floating (acc @ [ch]) msgs
          else if ch = 101 \<or> ch = 69 then getNumber_loop (snd (getChar s)) True acc msgs
          else (acc, putBack (snd (getChar s)), msgs))"
  by pat_completeness auto
termination
  by (relation "measure (\<lambda>(s, floating, acc, msgs). length (bytes s) - pos s)")
     (auto simp: lookChar_def getChar_def split: if_splits)

declare getNumber_loop.simps [simp del]

text \<open>
  \<open>getNumber (ch)\<close>. \<open>parseFloat\<close> belongs to the host and computes in floating point;
  it is a parameter. Its result counts as a number when it is \<open>ONum\<close> or \<open>OReal\<close> and
  as \<open>NaN\<close> otherwise, for which \<open>getNumber\<close> returns the marker \<open>Error\<close>.
\<close>

definition asNumber :: "jsobj \<Rightarrow> jsobj" where
  "asNumber v = (case v of ONum n \<Rightarrow> ONum n | OReal n d \<Rightarrow> OReal n d | _ \<Rightarrow> OError)"

definition getNumber :: "(jsstring \<Rightarrow> jsobj) \<Rightarrow> nat \<Rightarrow> Stream \<Rightarrow> jsobj \<times> Stream \<times> string list" where
  "getNumber parseFloat ch s =
     (case getNumber_loop s False [ch] [] of
        (text, s', msgs) \<Rightarrow> (asNumber (parseFloat text), s', msgs))"

text \<open>
  The loop of \<open>getString\<close> (lines 255-329). The counter of parentheses is declared
  as \<open>numParent\<close> and used as \<open>numParen\<close>, and an escaped backslash or parenthesis is
  appended as \<open>c\<close>, which is declared nowhere: each of these raises a
  \<open>ReferenceError\<close>. A second octal digit is read with \<open>this.getChar ()\<close>, a method the
  lexer does not have: a \<open>TypeError\<close>. The loop ends normally only at the end of the
  stream, with the message \<open>Unterminated string\<close>.
\<close>

function getString_loop :: "Stream \<Rightarrow> jsstring \<Rightarrow> js_error + (jsstring \<times> Stream \<times> string list)" where
  "getString_loop s acc =
     (case fst (getChar s) of
        None \<Rightarrow> Inr (acc, snd (getChar s), [''Unterminated string''])
      | Some ch \<Rightarrow>
          if ch = 40 then Inl ReferenceError
          else if ch = 41 then Inl ReferenceError
          else if ch = 92 then
            (case fst (getChar (snd (getChar s))) of
               None \<Rightarrow> Inr (acc, snd (getChar (snd (getChar s))), [''Unterminated string''])
             | Some e \<Rightarrow>
                 if e = 110 then getString_loop (snd (getChar (snd (getChar s)))) (acc @ [10])
                 else if e = 114 then getString_loop (snd (getChar (snd (getChar s)))) (acc @ [13])
                 else if e = 116 then getString_loop (snd (getChar (snd (getChar s)))) (acc @ [9])
                 else if e = 98 then getString_loop (snd (getChar (snd (getChar s)))) (acc @ [8])
                 else if e = 102 then getString_loop (snd (getChar (snd (getChar s)))) (acc @ [12])
                 else if e = 92 \<or> e = 40 \<or> e = 41 then Inl ReferenceError
                 else if 48 \<le> e \<and> e \<le> 55 then
                   (case lookChar (snd (getChar (snd (getChar s)))) of
                      None \<Rightarrow> getString_loop (snd (getChar (snd (getChar s)))) (acc @ [e - 48])
                    | Some d \<Rightarrow>
                        if 48 \<le> d \<and> d \<le> 55 then Inl TypeError
                        else getString_loop (snd (getChar (snd (getChar s)))) (acc @ [e - 48]))
                 else if e = 13 then
                   (if lookChar (snd (getChar (snd (getChar s)))) = Some 10
                    then getString_loop (snd (getChar (snd (getChar (snd (getChar s)))))) acc
                    else getString_loop (snd (getChar (snd (getChar s)))) acc)
                 else if e = 10 then getString_loop (snd (getChar (snd (getChar s)))) acc
                 else getString_loop (snd (getChar (snd (getChar s)))) (acc @ [e]))
          else getString_loop (snd (getChar s)) (acc @ [ch]))"
  by pat_completeness auto
termination
  by (relation "measure (\<lambda>(s, acc). length (bytes s) - pos s)")
     (auto simp: lookChar_def getChar_def split: if_splits)

declare getString_loop.simps [simp del]

text \<open>\<open>getString (ch)\<close>: an empty text would be returned as \<open>EOF\<close>.\<close>

definition getString :: "nat \<Rightarrow> Stream \<Rightarrow> js_error + (jsobj \<times> Stream \<times> string list)" where
  "getString ch s =
     (case getString_loop s [ch] of
        Inl e \<Rightarrow> Inl e
      | Inr (text, s', msgs) \<Rightarrow> Inr (if text = [] then OEOF else OString text, s', msgs))"

text \<open>
  \<open>getHexString (ch)\<close> (lines 360-381). Any character but \<open>>\<close> is tested with
  \<open>ch.toCharCode ()\<close>, a method strings do not have: a \<open>TypeError\<close>.
\<close>

definition getHexString :: "Stream \<Rightarrow> js_error + (jsobj \<times> Stream \<times> string list)" where
  "getHexString s =
     (case fst (getChar s) of
        None \<Rightarrow> Inr (OString [], snd (getChar s), [''Unterminated hex string''])
      | Some ch \<Rightarrow>
          if ch = 62 then Inr (OString [], snd (getChar s), [])
          else Inl TypeError)"

text \<open>
  \<open>Lexer.getObj\<close> as its caller sees it: the value read, the stream behind it and the
  messages printed. A name or a command is given by its text here; which object of the
  heap it is plays no part in what follows.
\<close>

definition Lexer_value ::
  "(jsstring \<Rightarrow> jsobj) \<Rightarrow> Stream \<Rightarrow> js_error + (jsobj \<times> Stream \<times> string list)" where
  "Lexer_value parseFloat s =
     (case scanObj s of
        Inl e \<Rightarrow> Inl e
      | Inr (v, s', msgs) \<Rightarrow>
          (case v of
             LName name \<Rightarrow> Inr (OName name, s', msgs)
           | LCmd cmd \<Rightarrow> Inr (OCmd cmd, s', msgs)
           | LBool b \<Rightarrow> Inr (OBool b, s', msgs)
           | LNull \<Rightarrow> Inr (ONull, s', msgs)
           | LEOF \<Rightarrow> Inr (OEOF, s', msgs)
           | LError \<Rightarrow> Inr (OError, s', msgs)
           | ByGetNumber ch \<Rightarrow>
               (case getNumber parseFloat ch s' of
                  (n, s'', msgs') \<Rightarrow> Inr (n, s'', msgs @ msgs'))
           | ByGetString ch \<Rightarrow>
               (case getString ch s' of
                  Inl e \<Rightarrow> Inl e
                | Inr (t, s'', msgs') \<Rightarrow> Inr (t, s'', msgs @ msgs'))
           | ByGetHexString ch \<Rightarrow>
               (case getHexString s' of
                  Inl e \<Rightarrow> Inl e
                | Inr (t, s'', msgs') \<Rightarrow> Inr (t, s'', msgs @ msgs'))))"

section \<open>Parser (pdf.js, lines 461-563)\<close>

text \<open>
  The parser: the stream of its lexer with the messages the lexer has printed, the
  flag \<open>allowStreams\<close>, the counter \<open>inlineImg\<close> and the two tokens it looks ahead.
\<close>

record Parser =
  lexer :: Stream
  lexerOutput :: "string list"
  allowStreams :: bool
  inlineImg :: nat
  buf1 :: jsobj
  buf2 :: jsobj

text \<open>\<open>this.lexer.getObj ()\<close>.\<close>

definition Parser_lex :: "(jsstring \<Rightarrow> jsobj) \<Rightarrow> Parser \<Rightarrow> js_error + (jsobj \<times> Parser)" where
  "Parser_lex parseFloat P =
     (case Lexer_value parseFloat (lexer P) of
        Inl e \<Rightarrow> Inl e
      | Inr (v, s, msgs) \<Rightarrow> Inr (v, P\<lparr>lexer := s, lexerOutput := lexerOutput P @ msgs\<rparr>))"

text \<open>\<open>refill\<close> (lines 470-473).\<close>

definition refill :: "(jsstring \<Rightarrow> jsobj) \<Rightarrow> Parser \<Rightarrow> js_error + Parser" where
  "refill parseFloat P =
     (case Parser_lex parseFloat P of
        Inl e \<Rightarrow> Inl e
      | Inr (v1, P1) \<Rightarrow>
          (case Parser_lex parseFloat (P1\<lparr>buf1 := v1\<rparr>) of
             Inl e \<Rightarrow> Inl e
           | Inr (v2, P2) \<Rightarrow> Inr (P2\<lparr>buf2 := v2\<rparr>)))"

text \<open>
  \<open>shift\<close> (lines 474-490). Behind the command \<open>ID\<close> it calls \<open>this.lexer.skipChar ()\<close>,
  a method the lexer does not have: a \<open>TypeError\<close>.
\<close>

definition shift :: "(jsstring \<Rightarrow> jsobj) \<Rightarrow> Parser \<Rightarrow> js_error + Parser" where
  "shift parseFloat P =
     (if inlineImg P = 0 \<and> IsCmd (buf2 P) (Some (str ''ID'')) then Inl TypeError
      else
        let P1 = (if inlineImg P > 0
                  then (if inlineImg P < 2 then P\<lparr>inlineImg := inlineImg P + 1\<rparr>
                        else P\<lparr>inlineImg := 0\<rparr>)
                  else P);
            P2 = P1\<lparr>buf1 := buf2 P1\<rparr>
        in if inlineImg P2 > 0 then Inr (P2\<lparr>buf2 := ONull\<rparr>)
           else (case Parser_lex parseFloat P2 of
                   Inl e \<Rightarrow> Inl e
                 | Inr (v, P3) \<Rightarrow> Inr (P3\<lparr>buf2 := v\<rparr>)))"

text \<open>The constructor (lines 462-467).\<close>

definition Parser_new :: "(jsstring \<Rightarrow> jsobj) \<Rightarrow> Stream \<Rightarrow> bool \<Rightarrow> js_error + Parser" where
  "Parser_new parseFloat s allow =
     refill parseFloat
       \<lparr>lexer = s, lexerOutput = [], allowStreams = allow, inlineImg = 0,
        buf1 = OUndefined, buf2 = OUndefined\<rparr>"

text \<open>
  \<open>Parser.getObj\<close> (lines 491-551). The function calls itself for the elements of an
  array, so it may fail to return a result (a host gives up such a recursion with an
  error of its own when the stack is used up): the result is \<open>None\<close> then. With \<open>None\<close> for the
  second argument it is \<open>getObj\<close> from its first line; with \<open>Some array\<close> it is the loop
  of lines 498-499 with the elements read so far.

  In the branch of a dictionary the body of the loop starts with a call of \<open>error\<close> or
  with a read of \<open>buf1\<close>, neither of which is defined (each lacks its \<open>this\<close>), and so
  does the report of the end of the file: a \<open>ReferenceError\<close> each. The parser has no
  method \<open>error\<close> either, so the report \<open>this.error (...)\<close> in the branch of an array is
  a \<open>TypeError\<close>. \<open>makeStream\<close> returns the marker \<open>Error\<close>, \<open>decrypt\<close> its argument.
\<close>

partial_function (option) Parser_getObj ::
  "(jsstring \<Rightarrow> jsobj) \<Rightarrow> jsobj list option \<Rightarrow> Parser \<Rightarrow> (js_error + jsobj \<times> Parser) option" where
  "Parser_getObj parseFloat loop P =
     (case loop of
        Some array \<Rightarrow>
          if \<not> IsCmd (buf1 P) (Some (str '']'')) \<and> \<not> IsEOF_units (buf1 P) then
            Option.bind (Parser_getObj parseFloat None P)
              (\<lambda>r. case r of
                      Inl e \<Rightarrow> Some (Inl e)
                    | Inr (v, P') \<Rightarrow> Parser_getObj parseFloat (Some (array @ [v])) P')
          else if IsEOF_units (buf1 P) then Some (Inl TypeError)
          else (case shift parseFloat P of
                  Inl e \<Rightarrow> Some (Inl e)
                | Inr P' \<Rightarrow> Some (Inr (OArray array, P')))
      | None \<Rightarrow>
          (case (if inlineImg P = 2 then refill parseFloat P else Inr P) of
             Inl e \<Rightarrow> Some (Inl e)
           | Inr P0 \<Rightarrow>
               if IsCmd (buf1 P0) (Some (str ''['')) then Parser_getObj parseFloat (Some []) P0
               else if IsCmd (buf1 P0) (Some (str ''<<'')) then
                 (case shift parseFloat P0 of
                    Inl e \<Rightarrow> Some (Inl e)
                  | Inr P1 \<Rightarrow>
                      if \<not> IsCmd (buf1 P1) (Some (str ''>>'')) \<and> \<not> IsEOF_units (buf1 P1)
                        then Some (Inl ReferenceError)
                      else if IsEOF_units (buf1 P1) then Some (Inl ReferenceError)
                      else if allowStreams P1 \<and> IsCmd (buf2 P1) (Some (str ''stream''))
                        then Some (Inr (OError, P1))
                      else (case shift parseFloat P1 of
                              Inl e \<Rightarrow> Some (Inl e)
                            | Inr P2 \<Rightarrow> Some (Inr (ODict [], P2))))
               else if IsInt (buf1 P0) then
                 (case shift parseFloat P0 of
                    Inl e \<Rightarrow> Some (Inl e)
                  | Inr P1 \<Rightarrow>
                      if IsInt (buf1 P1) \<and> IsCmd (buf2 P1) (Some (str ''R'')) then
                        (case shift parseFloat P1 of
                           Inl e \<Rightarrow> Some (Inl e)
                         | Inr P2 \<Rightarrow>
                             (case shift parseFloat P2 of
                                Inl e \<Rightarrow> Some (Inl e)
                              | Inr P3 \<Rightarrow>
                                  Some (Inr (ORef (numOf (buf1 P0)) (numOf (buf1 P1)), P3))))
                      else Some (Inr (buf1 P0, P1)))
               else (case shift parseFloat P0 of
                       Inl e \<Rightarrow> Some (Inl e)
                     | Inr P1 \<Rightarrow> Some (Inr (buf1 P0, P1)))))"

text \<open>
  Two predicates for the proofs below: a value that is neither the command \<open><<\<close> nor a
  \<open>Dict\<close>, and a parser whose two buffered tokens are such values.
\<close>

definition lexed :: "jsobj \<Rightarrow> bool" where
  "lexed v \<longleftrightarrow> \<not> IsCmd v (Some (str ''<<'')) \<and> \<not> IsDict v"

definition noDictOpen :: "Parser \<Rightarrow> bool" where
  "noDictOpen P \<longleftrightarrow> lexed (buf1 P) \<and> lexed (buf2 P)"

section \<open>Linearization (pdf.js, lines 565-639) and PDFDoc.linearization (lines 727-737)\<close>

text \<open>
  The methods a \<open>Dict\<close> has (lines 87-97): \<open>get\<close>, \<open>set\<close> and \<open>contains\<close>.
\<close>

datatype dict_method = Get | Set | Contains

definition Dict_prototype :: "string \<rightharpoonup> dict_method" where
  "Dict_prototype = [''get'' \<mapsto> Get, ''set'' \<mapsto> Set, ''contains'' \<mapsto> Contains]"

text \<open>\<open>Dict.get\<close>: the value set last for the key.\<close>

definition Dict_get :: "('c list \<times> 'c gobj) list \<Rightarrow> 'c list \<Rightarrow> 'c gobj" where
  "Dict_get d key = (case map_of (rev d) key of None \<Rightarrow> OUndefined | Some v \<Rightarrow> v)"

text \<open>\<open>Dict.set\<close> and \<open>Dict.contains\<close>.\<close>

definition Dict_set :: "('c list \<times> 'c gobj) list \<Rightarrow> 'c list \<Rightarrow> 'c gobj \<Rightarrow> ('c list \<times> 'c gobj) list" where
  "Dict_set d key v = d @ [(key, v)]"

definition Dict_contains :: "('c list \<times> 'c gobj) list \<Rightarrow> 'c list \<Rightarrow> bool" where
  "Dict_contains d key = (map_of d key \<noteq> None)"

text \<open>
  The call \<open>dict.m (key)\<close> of a method by name, for a one-argument call whose result is
  used: the method is looked up in the prototype, and calling a property that is not
  there raises a \<open>TypeError\<close>. (\<open>set\<close> called with one argument stores \<open>undefined\<close> and
  returns nothing.) Besides \<open>set\<close> in the parser, the file calls \<open>lookup\<close> on a \<open>Dict\<close> and
  nothing else, none of the methods of \<open>ObjectPrototype\<close> in particular, which are
  left out here; \<open>lookup\<close> is not among them.
\<close>

definition Dict_invoke :: "('c list \<times> 'c gobj) list \<Rightarrow> string \<Rightarrow> 'c list \<Rightarrow> js_error + 'c gobj" where
  "Dict_invoke d m key =
     (case Dict_prototype m of
        None \<Rightarrow> Inl TypeError
      | Some Get \<Rightarrow> Inr (Dict_get d key)
      | Some Contains \<Rightarrow> Inr (OBool (Dict_contains d key))
      | Some Set \<Rightarrow> Inr OUndefined)"

definition invoke :: "'c gobj \<Rightarrow> string \<Rightarrow> 'c list \<Rightarrow> js_error + 'c gobj" where
  "invoke v m key = (case v of ODict d \<Rightarrow> Dict_invoke d m key | _ \<Rightarrow> Inl TypeError)"

text \<open>\<open>obj > 0\<close> for a number.\<close>

fun positive :: "'c gobj \<Rightarrow> bool" where
  "positive (ONum v) = (v > 0)"
| "positive (OReal n d) = (if d > 0 then n > 0 else if d < 0 then n < 0 else False)"
| "positive v = False"

record Linearization =
  linDict :: jsobj

text \<open>
  The constructor (lines 566-577): it makes a parser of its own on the stream, without
  streams allowed, and reads four objects. \<open>None\<close> when one of them is never returned.
\<close>

definition Linearization_new :: "(jsstring \<Rightarrow> jsobj) \<Rightarrow> Stream \<Rightarrow> (js_error + Linearization) option" where
  "Linearization_new parseFloat s =
     (case Parser_new parseFloat s False of
        Inl e \<Rightarrow> Some (Inl e)
      | Inr P0 \<Rightarrow>
     Option.bind (Parser_getObj parseFloat None P0) (\<lambda>r1. case r1 of
        Inl e \<Rightarrow> Some (Inl e)
      | Inr (obj1, P1) \<Rightarrow>
     Option.bind (Parser_getObj parseFloat None P1) (\<lambda>r2. case r2 of
        Inl e \<Rightarrow> Some (Inl e)
      | Inr (obj2, P2) \<Rightarrow>
     Option.bind (Parser_getObj parseFloat None P2) (\<lambda>r3. case r3 of
        Inl e \<Rightarrow> Some (Inl e)
      | Inr (obj3, P3) \<Rightarrow>
     Option.bind (Parser_getObj parseFloat None P3) (\<lambda>r4. case r4 of
        Inl e \<Rightarrow> Some (Inl e)
      | Inr (dict, P4) \<Rightarrow>
          if IsInt obj1 \<and> IsInt obj2 \<and> IsCmd obj3 (Some (str ''obj'')) \<and> IsDict dict then
            (case invoke dict ''lookup'' (str ''Linearized'') of
               Inl e \<Rightarrow> Some (Inl e)
             | Inr v \<Rightarrow>
                 if \<not> (IsNum v \<and> positive v) then Some (Inr \<lparr>linDict = ONull\<rparr>)
                 else Some (Inr \<lparr>linDict = dict\<rparr>))
          else Some (Inr \<lparr>linDict = dict\<rparr>))))))"

text \<open>
  \<open>getInt (name)\<close> (lines 580-590). For a valid field the method returns \<open>length\<close>, a
  variable that is declared neither in the method nor around it: it is the global
  \<open>length\<close> of the host, here \<open>globalLength\<close>, and reading it raises a \<open>ReferenceError\<close>
  on a host that has none. The function \<open>error\<close> called otherwise is not defined in
  the file (the lexer has a method of that name, \<open>Linearization\<close> has none), and no
  host provides it: the call raises a \<open>ReferenceError\<close>.
\<close>

definition getInt :: "int option \<Rightarrow> Linearization \<Rightarrow> jsstring \<Rightarrow> js_error + int" where
  "getInt globalLength lin name =
     (if IsDict (linDict lin) then
        (case invoke (linDict lin) ''lookup'' name of
           Inl e \<Rightarrow> Inl e
         | Inr v \<Rightarrow>
             if IsInt v \<and> positive v then
               (case globalLength of None \<Rightarrow> Inl ReferenceError | Some l \<Rightarrow> Inr l)
             else Inl ReferenceError)
      else Inl ReferenceError)"

text \<open>
  \<open>getHint (index)\<close> (lines 591-603); \<open>obj1[index]\<close> is \<open>undefined\<close> beyond the end of
  the array. \<open>Linearization\<close> has no method \<open>error\<close>, so the call \<open>this.error (...)\<close>
  raises a \<open>TypeError\<close>.
\<close>

definition getHint :: "Linearization \<Rightarrow> nat \<Rightarrow> js_error + int" where
  "getHint lin index =
     (if IsDict (linDict lin) then
        (case invoke (linDict lin) ''lookup'' (str ''H'') of
           Inl e \<Rightarrow> Inl e
         | Inr obj1 \<Rightarrow>
             (case obj1 of
                OArray a \<Rightarrow>
                  (case at a index of
                     Some obj2 \<Rightarrow>
                       if length a \<ge> 2 \<and> IsInt obj2 \<and> positive obj2 then Inr (numOf obj2)
                       else Inl TypeError
                   | None \<Rightarrow> Inl TypeError)
              | _ \<Rightarrow> Inl TypeError))
      else Inl TypeError)"

text \<open>The getter \<open>length\<close> (lines 604-608).\<close>

definition Linearization_length :: "int option \<Rightarrow> Linearization \<Rightarrow> js_error + int" where
  "Linearization_length globalLength lin =
     (if \<not> IsDict (linDict lin) then Inr 0 else getInt globalLength lin (str ''L''))"

text \<open>
  The getters of the hint table and of the fields \<open>O\<close>, \<open>E\<close>, \<open>N\<close>, \<open>T\<close> and \<open>P\<close>
  (lines 609-635), under the names the source gives them.
\<close>

definition hintsOffset :: "Linearization \<Rightarrow> js_error + int" where
  "hintsOffset lin = getHint lin 0"

definition hintsLength :: "Linearization \<Rightarrow> js_error + int" where
  "hintsLength lin = getHint lin 1"

definition hintsOffset2 :: "Linearization \<Rightarrow> js_error + int" where
  "hintsOffset2 lin = getHint lin 2"

definition hintsLenth2 :: "Linearization \<Rightarrow> js_error + int" where
  "hintsLenth2 lin = getHint lin 3"

definition objectNumberFirst :: "int option \<Rightarrow> Linearization \<Rightarrow> js_error + int" where
  "objectNumberFirst globalLength lin = getInt globalLength lin (str ''O'')"

definition endFirst :: "int option \<Rightarrow> Linearization \<Rightarrow> js_error + int" where
  "endFirst globalLength lin = getInt globalLength lin (str ''E'')"

definition numPages :: "int option \<Rightarrow> Linearization \<Rightarrow> js_error + int" where
  "numPages globalLength lin = getInt globalLength lin (str ''N'')"

definition mainXRefEntriesOffset :: "int option \<Rightarrow> Linearization \<Rightarrow> js_error + int" where
  "mainXRefEntriesOffset globalLength lin = getInt globalLength lin (str ''T'')"

definition pageFirst :: "int option \<Rightarrow> Linearization \<Rightarrow> js_error + int" where
  "pageFirst globalLength lin = getInt globalLength lin (str ''P'')"

text \<open>
  The getter \<open>PDFDoc.linearization\<close> on the stream of the document. Within the
  result, \<open>None\<close> is \<open>false\<close>: the document is not linearized.
\<close>

definition PDFDoc_linearization ::
  "(jsstring \<Rightarrow> jsobj) \<Rightarrow> int option \<Rightarrow> Stream \<Rightarrow> (js_error + Linearization option) option" where
  "PDFDoc_linearization parseFloat globalLength s =
     (if length (bytes s) \<noteq> 0 then
        Option.bind (Linearization_new parseFloat s) (\<lambda>r. case r of
           Inl e \<Rightarrow> Some (Inl e)
         | Inr lin \<Rightarrow>
             (case Linearization_length globalLength lin of
                Inl e \<Rightarrow> Some (Inl e)
              | Inr l \<Rightarrow>
                  if l \<noteq> int (length (bytes s)) then Some (Inr None)
                  else Some (Inr (Some lin))))
      else Some (Inr None))"


subsection \<open>What the linearization parameters give\<close>

lemma Dict_get_set: "Dict_get (Dict_set d key v) key = v"
  by (simp add: Dict_get_def Dict_set_def)

text \<open>
  A \<open>Dict\<close> has no method \<open>lookup\<close>, and no other value that \<open>invoke\<close> is given has
  one.
\<close>

lemma invoke_lookup: "invoke v ''lookup'' key = Inl TypeError"
  by (cases v) (simp_all add: invoke_def Dict_invoke_def Dict_prototype_def)

text \<open>
  Hence no field is ever returned: \<open>getInt\<close> and \<open>getHint\<close> raise on every
  \<open>Linearization\<close>, for every field, whatever the host.
\<close>

lemma getInt_raises:
  "getInt globalLength lin name = Inl (if IsDict (linDict lin) then TypeError else ReferenceError)"
  by (simp add: getInt_def invoke_lookup)

lemma getHint_raises: "getHint lin index = Inl TypeError"
  by (simp add: getHint_def invoke_lookup)

lemma Linearization_length_cases:
  "Linearization_length globalLength lin = (if IsDict (linDict lin) then Inl TypeError else Inr 0)"
  by (simp add: Linearization_length_def getInt_raises)

text \<open>
  And \<open>PDFDoc.linearization\<close> never returns a \<open>Linearization\<close>, whatever the stream:
  the length compared with the length of the stream is \<open>0\<close>, or the comparison is not
  reached.
\<close>

lemma PDFDoc_linearization_never_linearized:
  "PDFDoc_linearization parseFloat globalLength s \<noteq> Some (Inr (Some lin))"
  by (auto simp: PDFDoc_linearization_def Linearization_length_cases
      split: if_splits sum.splits Option.bind_splits)

text \<open>
  The lexer gives the command \<open><\<close> for the two characters \<open><<\<close>: the character it
  returns is the one it has looked at, not the two it has read. The parser opens a
  dictionary at the command \<open><<\<close> only.
\<close>

lemma specialChars_lin:
  "specialChars ! 32 = 1" "specialChars ! 47 = 2" "specialChars ! 48 = 0" "specialChars ! 49 = 0"
  "specialChars ! 60 = 2" "specialChars ! 62 = 2"
  "specialChars ! 76 = 0" "specialChars ! 97 = 0" "specialChars ! 98 = 0" "specialChars ! 100 = 0"
  "specialChars ! 101 = 0" "specialChars ! 105 = 0" "specialChars ! 106 = 0"
  "specialChars ! 110 = 0" "specialChars ! 111 = 0" "specialChars ! 114 = 0"
  "specialChars ! 122 = 0"
  by (simp_all add: specialChars_def)

lemma Lexer_value_dict_open:
  "Lexer_value parseFloat \<lparr>bytes = ''<</N 1>>'', pos = 0\<rparr>
     = Inr (OCmd (str ''<''), \<lparr>bytes = ''<</N 1>>'', pos = 2\<rparr>, [])"
  by (simp add: Lexer_value_def scanObj_def skipSpace.simps lookChar_def getChar_def
      specialChars_lin str_def)

text \<open>A number read by the lexer is a number or the marker \<open>Error\<close>.\<close>

lemma asNumber_simps:
  "\<not> IsCmd (asNumber v) c" "\<not> IsEOF_units (asNumber v)" "\<not> IsDict (asNumber v)"
  by (cases v; simp add: asNumber_def)+

text \<open>
  No value of the lexer is the command \<open><<\<close>, on any stream: a command of more than
  one character starts with a character that is not special, and \<open><\<close> is.
\<close>

lemma getCmd_loop_prefix:
  "getCmd_loop s acc = Inr (cmd, s') \<Longrightarrow> take (length acc) cmd = acc"
proof (induction s acc rule: getCmd_loop.induct)
  case (1 s acc)
  show ?case
  proof (cases "lookChar s")
    case None
    with "1.prems" show ?thesis by (simp add: getCmd_loop.simps)
  next
    case (Some ch)
    show ?thesis
    proof (cases "specialChars ! ch \<noteq> 0 \<or> length acc = 128")
      case True
      with "1.prems" Some show ?thesis by (auto simp: getCmd_loop.simps split: if_splits)
    next
      case False
      with "1.prems" Some have "getCmd_loop (snd (getChar s)) (acc @ [ch]) = Inr (cmd, s')"
        by (simp add: getCmd_loop.simps)
      with "1.IH"[OF Some] False have "take (length (acc @ [ch])) cmd = acc @ [ch]" by simp
      then have "take (length acc) (take (length (acc @ [ch])) cmd) = take (length acc) (acc @ [ch])"
        by simp
      then show ?thesis by (simp add: min_def)
    qed
  qed
qed

lemma scanObj_not_dict_open:
  assumes "scanObj s = Inr (v, s', msgs)"
  shows "v \<noteq> LCmd [60, 60]"
proof
  assume v: "v = LCmd [60, 60]"
  obtain c s1 where sk: "skipSpace s False = (c, s1)" by (cases "skipSpace s False")
  show False
  proof (cases c)
    case None
    with assms sk v show False by (simp add: scanObj_def)
  next
    case (Some ch)
    with assms sk v have
      "ch \<noteq> 60" and "ch \<noteq> 91" and "ch \<noteq> 93" and
      "\<exists>cmd s2. getCmd_loop s1 [ch] = Inr (cmd, s2) \<and> cmd = [60, 60]"
      by (auto simp: scanObj_def split: if_splits sum.splits)
    then obtain s2 where "getCmd_loop s1 [ch] = Inr ([60, 60], s2)" by auto
    from getCmd_loop_prefix[OF this] \<open>ch \<noteq> 60\<close> show False by simp
  qed
qed

lemma Lexer_value_not_dict_open:
  assumes "Lexer_value parseFloat s = Inr (v, s', msgs)"
  shows "lexed v"
proof -
  from assms obtain l s1 m1 where sc: "scanObj s = Inr (l, s1, m1)"
    by (auto simp: Lexer_value_def split: sum.splits)
  note nd = scanObj_not_dict_open[OF sc]
  show ?thesis
  proof (cases l)
    case (LCmd cmd)
    with assms sc nd show ?thesis
      by (auto simp: Lexer_value_def str_def lexed_def)
  next
    case (ByGetNumber ch)
    with assms sc show ?thesis
      by (auto simp: Lexer_value_def getNumber_def asNumber_simps lexed_def split: prod.splits)
  next
    case (ByGetString ch)
    with assms sc show ?thesis
      by (auto simp: Lexer_value_def getString_def lexed_def split: prod.splits sum.splits if_splits)
  next
    case (ByGetHexString ch)
    with assms sc show ?thesis
      by (auto simp: Lexer_value_def getHexString_def lexed_def
          split: prod.splits sum.splits if_splits option.splits)
  qed (use assms sc in \<open>auto simp: Lexer_value_def lexed_def\<close>)
qed

lemma Parser_lex_result:
  "Parser_lex parseFloat P = Inr (v, P') \<Longrightarrow>
     lexed v \<and> buf1 P' = buf1 P \<and> buf2 P' = buf2 P"
  by (auto simp: Parser_lex_def split: sum.splits dest: Lexer_value_not_dict_open)

lemma refill_noDictOpen:
  assumes "refill parseFloat P = Inr P'"
  shows "noDictOpen P'"
proof -
  from assms obtain v1 P1 v2 P2 where
    l1: "Parser_lex parseFloat P = Inr (v1, P1)" and
    l2: "Parser_lex parseFloat (P1\<lparr>buf1 := v1\<rparr>) = Inr (v2, P2)" and
    P': "P' = P2\<lparr>buf2 := v2\<rparr>"
    by (auto simp: refill_def split: sum.splits)
  from Parser_lex_result[OF l1] Parser_lex_result[OF l2] P' show ?thesis
    by (simp add: noDictOpen_def)
qed

lemma shift_noDictOpen:
  assumes "shift parseFloat P = Inr P'" and "noDictOpen P"
  shows "noDictOpen P'"
proof -
  define P1 where "P1 = (if inlineImg P > 0
                  then (if inlineImg P < 2 then P\<lparr>inlineImg := inlineImg P + 1\<rparr>
                        else P\<lparr>inlineImg := 0\<rparr>)
                  else P)"
  define P2 where "P2 = P1\<lparr>buf1 := buf2 P1\<rparr>"
  have b: "buf1 P2 = buf2 P" "buf2 P2 = buf2 P" by (simp_all add: P1_def P2_def)
  show ?thesis
  proof (cases "inlineImg P2 > 0")
    case True
    with assms(1) have "P' = P2\<lparr>buf2 := ONull\<rparr>"
      by (simp add: shift_def P1_def P2_def Let_def split: if_splits)
    with b assms(2) show ?thesis by (simp add: noDictOpen_def lexed_def)
  next
    case False
    with assms(1) obtain v P3 where l: "Parser_lex parseFloat P2 = Inr (v, P3)"
      and P': "P' = P3\<lparr>buf2 := v\<rparr>"
      by (auto simp: shift_def P1_def P2_def Let_def split: if_splits sum.splits)
    from Parser_lex_result[OF l] P' b assms(2) show ?thesis by (simp add: noDictOpen_def)
  qed
qed

lemma Parser_getObj_no_dict:
  assumes "Parser_getObj parseFloat loop P = Some r"
  shows "noDictOpen P \<longrightarrow> (case r of Inl e \<Rightarrow> True | Inr (v, P') \<Rightarrow> noDictOpen P' \<and> \<not> IsDict v)"
proof -
  let ?R = "\<lambda>r. case r of Inl e \<Rightarrow> True | Inr (v, P') \<Rightarrow> noDictOpen P' \<and> \<not> IsDict v"
  let ?Q = "\<lambda>(x :: ((jsstring \<Rightarrow> jsobj) \<times> jsobj list option) \<times> Parser) r.
              noDictOpen (snd x) \<longrightarrow> ?R r"
  have "?Q ((parseFloat, loop), P) r"
  proof (rule Parser_getObj.raw_induct[where Pa = ?Q, OF _ assms], goal_cases)
    case prems: (1 getObj pf loop P r)
    have IH: "\<And>l P y. getObj pf l P = Some y \<Longrightarrow> noDictOpen P \<Longrightarrow> ?R y"
      using prems(1) by simp
    note body = prems(2)
    have "?R r" if inv: "noDictOpen P"
    proof (cases loop)
      case (Some array)
      show ?thesis
      proof (cases "\<not> IsCmd (buf1 P) (Some (str '']'')) \<and> \<not> IsEOF_units (buf1 P)")
        case True
        with body Some obtain r1 where
          r1: "getObj pf None P = Some r1" and
          rest: "(case r1 of Inl e \<Rightarrow> Some (Inl e)
                  | Inr (v, P') \<Rightarrow> getObj pf (Some (array @ [v])) P') = Some r"
          by (auto simp: Option.bind_eq_Some_conv)
        show ?thesis
        proof (cases r1)
          case (Inl e)
          with rest show ?thesis by auto
        next
          case (Inr p)
          obtain v P' where p: "p = (v, P')" by (cases p)
          from IH[OF r1 inv] Inr p have "noDictOpen P'" by simp
          moreover from rest Inr p have "getObj pf (Some (array @ [v])) P' = Some r" by simp
          ultimately show ?thesis by (rule IH[rotated])
        qed
      next
        case False
        with body Some inv show ?thesis
          by (auto split: if_splits sum.splits dest: shift_noDictOpen)
      qed
    next
      case None
      show ?thesis
      proof (cases "if inlineImg P = 2 then refill pf P else Inr P")
        case (Inl e)
        with body None show ?thesis by auto
      next
        case (Inr P0)
        then have inv0: "noDictOpen P0"
          using inv by (auto split: if_splits dest: refill_noDictOpen)
        then have nd: "\<not> IsCmd (buf1 P0) (Some (str ''<<''))" "\<not> IsDict (buf1 P0)"
          by (simp_all add: noDictOpen_def lexed_def)
        show ?thesis
        proof (cases "IsCmd (buf1 P0) (Some (str ''[''))")
          case True
          with body None Inr have "getObj pf (Some []) P0 = Some r" by simp
          from IH[OF this inv0] show ?thesis .
        next
          case False
          show ?thesis
          proof (cases "shift pf P0")
            case (Inl e)
            with body None Inr False nd show ?thesis by (auto split: if_splits)
          next
            case P1: (Inr P1)
            from shift_noDictOpen[OF P1 inv0] have inv1: "noDictOpen P1" .
            show ?thesis
            proof (cases "IsInt (buf1 P0) \<and> IsInt (buf1 P1) \<and> IsCmd (buf2 P1) (Some (str ''R''))")
              case True
              with body None Inr False nd P1 inv1 show ?thesis
                by (auto split: sum.splits dest!: shift_noDictOpen)
            next
              case F2: False
              with body None Inr False nd P1 inv1 show ?thesis
                by (auto split: if_splits)
            qed
          qed
        qed
      qed
    qed
    then show ?case by simp
  qed
  then show ?thesis by simp
qed

lemma Parser_new_noDictOpen: "Parser_new parseFloat s allow = Inr P \<Longrightarrow> noDictOpen P"
  by (simp add: Parser_new_def refill_noDictOpen)

lemma Parser_getObj_lexed:
  "Parser_getObj parseFloat loop P = Some (Inr (v, P')) \<Longrightarrow> noDictOpen P \<Longrightarrow>
     noDictOpen P' \<and> \<not> IsDict v"
  using Parser_getObj_no_dict[of parseFloat loop P "Inr (v, P')"] by simp

lemma Linearization_new_no_dict:
  assumes "Linearization_new parseFloat s = Some (Inr lin)"
  shows "\<not> IsDict (linDict lin)"
proof -
  from assms obtain P0 where P0: "Parser_new parseFloat s False = Inr P0"
    by (auto simp: Linearization_new_def split: sum.splits)
  note i0 = Parser_new_noDictOpen[OF P0]
  obtain obj1 P1 where g1: "Parser_getObj parseFloat None P0 = Some (Inr (obj1, P1))"
    using assms P0
    by (cases "Parser_getObj parseFloat None P0")
       (auto simp: Linearization_new_def split: sum.splits)
  from Parser_getObj_lexed[OF g1 i0] have i1: "noDictOpen P1" by simp
  obtain obj2 P2 where g2: "Parser_getObj parseFloat None P1 = Some (Inr (obj2, P2))"
    using assms P0 g1
    by (cases "Parser_getObj parseFloat None P1")
       (auto simp: Linearization_new_def split: sum.splits)
  from Parser_getObj_lexed[OF g2 i1] have i2: "noDictOpen P2" by simp
  obtain obj3 P3 where g3: "Parser_getObj parseFloat None P2 = Some (Inr (obj3, P3))"
    using assms P0 g1 g2
    by (cases "Parser_getObj parseFloat None P2")
       (auto simp: Linearization_new_def split: sum.splits)
  from Parser_getObj_lexed[OF g3 i2] have i3: "noDictOpen P3" by simp
  obtain dict P4 where g4: "Parser_getObj parseFloat None P3 = Some (Inr (dict, P4))"
    using assms P0 g1 g2 g3
    by (cases "Parser_getObj parseFloat None P3")
       (auto simp: Linearization_new_def split: sum.splits)
  from Parser_getObj_lexed[OF g4 i3] have nd: "\<not> IsDict dict" by simp
  from assms P0 g1 g2 g3 g4 nd show ?thesis
    by (auto simp: Linearization_new_def)
qed

text \<open>
  So the \<open>Linearization\<close> made from a stream, whenever one is made, holds no
  dictionary. Each of its fields \<open>/O\<close>, \<open>/E\<close>, \<open>/N\<close>, \<open>/T\<close> and \<open>/P\<close> raises the
  \<open>ReferenceError\<close> of the undefined function \<open>error\<close>, each hint the \<open>TypeError\<close> of
  the missing method, and the document is not taken for linearized.
\<close>

lemma Linearization_new_fields:
  assumes "Linearization_new parseFloat s = Some (Inr lin)"
  shows "objectNumberFirst globalLength lin = Inl ReferenceError"
    and "endFirst globalLength lin = Inl ReferenceError"
    and "numPages globalLength lin = Inl ReferenceError"
    and "mainXRefEntriesOffset globalLength lin = Inl ReferenceError"
    and "pageFirst globalLength lin = Inl ReferenceError"
    and "hintsOffset lin = Inl TypeError"
    and "hintsLength lin = Inl TypeError"
    and "Linearization_length globalLength lin = Inr 0"
  using Linearization_new_no_dict[OF assms]
  by (simp_all add: objectNumberFirst_def endFirst_def numPages_def mainXRefEntriesOffset_def
      pageFirst_def hintsOffset_def hintsLength_def getInt_raises getHint_raises
      Linearization_length_cases)

lemma PDFDoc_linearization_false:
  assumes "Linearization_new parseFloat s = Some (Inr lin)"
  shows "PDFDoc_linearization parseFloat globalLength s = Some (Inr None)"
  using assms Linearization_new_fields(8)[OF assms, of globalLength]
  by (simp add: PDFDoc_linearization_def)

lemmas lex_defs = Parser_lex_def Lexer_value_def scanObj_def skipSpace.simps
  getNumber_def getNumber_loop.simps getCmd_loop.simps getName_scan_def getName_loop.simps
  lookChar_def getChar_def putBack_def specialChars_lin str_def asNumber_simps

text \<open>
  Every document that begins with the object \<open>1 0\<close> and a dictionary marked
  \<open>/Linearized 1\<close> gives the same \<open>Linearization\<close>, whatever follows.
\<close>

lemma Linearization_new_linearized:
  "Linearization_new parseFloat \<lparr>bytes = ''1 0 obj <</Linearized 1/'' @ rest, pos = 0\<rparr>
     = Some (Inr \<lparr>linDict = OCmd (str ''<'')\<rparr>)"
  by (simp add: Linearization_new_def Parser_new_def refill_def Parser_getObj.simps shift_def
      lex_defs)

text \<open>
  C9. The claim has two halves. For a document whose \<open>/L\<close> differs from the length of
  the stream the getter gives \<open>false\<close>, as claimed: below for a document of 56 bytes
  that declares \<open>/L 2000\<close>. But a field that is not a positive integer does not give
  a logged error and \<open>0\<close>, and the other fields are not left alone. The
  \<open>Linearization\<close> made from this document, which declares \<open>/N 0\<close> and \<open>/P 4\<close>, holds
  the command \<open><\<close> where the dictionary should be; its \<open>numPages\<close> raises a
  \<open>ReferenceError\<close> from the call of the undefined function \<open>error\<close>, and so does
  \<open>pageFirst\<close>, whose field is valid; \<open>hintsOffset\<close> raises a \<open>TypeError\<close>. This
  holds for every \<open>parseFloat\<close> and every host.
\<close>

theorem Linearization_fields_raise:
  "PDFDoc_linearization parseFloat globalLength
       \<lparr>bytes = ''%PDF-1.4\<newline>1 0 obj <</Linearized 1/L 2000/N 0/P 4>> endobj'', pos = 0\<rparr>
     = Some (Inr None) \<and>
   int (length ''%PDF-1.4\<newline>1 0 obj <</Linearized 1/L 2000/N 0/P 4>> endobj'') = 56 \<and>
   Linearization_new parseFloat
       \<lparr>bytes = ''%PDF-1.4\<newline>1 0 obj <</Linearized 1/L 2000/N 0/P 4>> endobj'', pos = 0\<rparr>
     = Some (Inr \<lparr>linDict = OCmd (str ''<'')\<rparr>) \<and>
   numPages globalLength \<lparr>linDict = OCmd (str ''<'')\<rparr> = Inl ReferenceError \<and>
   pageFirst globalLength \<lparr>linDict = OCmd (str ''<'')\<rparr> = Inl ReferenceError \<and>
   hintsOffset \<lparr>linDict = OCmd (str ''<'')\<rparr> = Inl TypeError"
proof -
  have lin: "Linearization_new parseFloat
       \<lparr>bytes = ''%PDF-1.4\<newline>1 0 obj <</Linearized 1/L 2000/N 0/P 4>> endobj'', pos = 0\<rparr>
     = Some (Inr \<lparr>linDict = OCmd (str ''<'')\<rparr>)"
    by (simp add: Linearization_new_def Parser_new_def refill_def Parser_getObj.simps shift_def
        lex_defs)
  show ?thesis
    by (simp add: PDFDoc_linearization_def lin Linearization_length_cases
        numPages_def pageFirst_def hintsOffset_def getInt_raises getHint_raises)
qed

text \<open>
  The same document with the \<open>/L\<close> that matches its length is not taken for linearized
  either.
\<close>

lemma PDFDoc_linearization_matching_length:
  "length ''%PDF-1.4\<newline>1 0 obj <</Linearized 1/L 54/N 1/P 4>> endobj'' = 54 \<and>
   PDFDoc_linearization parseFloat globalLength
       \<lparr>bytes = ''%PDF-1.4\<newline>1 0 obj <</Linearized 1/L 54/N 1/P 4>> endobj'', pos = 0\<rparr>
     = Some (Inr None)"
  by (simp add: PDFDoc_linearization_def Linearization_new_def Parser_new_def refill_def
      Parser_getObj.simps shift_def lex_defs Linearization_length_cases)

end
